theory Spec2Isabelle
  imports Main "HOL-Library.Multiset"
begin

section \<open>Python builtins used by the module\<close>

text \<open>
  Exceptions are values. \<^verbatim>\<open>WSDLError\<close> carries an origin and a message; the
  message is a fault string, the serialised fault element
  (\<^verbatim>\<open>lxml.etree.tostring(fault)\<close>) or the text built from an HTTP status.
\<close>

datatype ('e) wsdl_message =
    FaultString string
  | FaultElement 'e
  | HttpStatus int

datatype ('e) exception =
    WSDLError string "'e wsdl_message"
  | WSDLCodingException string
  | HostTechAPIError string
  | HostTechAPIAuthError string
  | KeyError string
  | ValueError
  | TypeError
  | AttributeError

text \<open>\<^verbatim>\<open>text.find(':')\<close>: the index of the first occurrence, if there is one.\<close>

fun str_find :: "char \<Rightarrow> string \<Rightarrow> nat option" where
  "str_find c [] = None"
| "str_find c (x # xs) =
     (if x = c then Some 0 else map_option Suc (str_find c xs))"

text \<open>\<^verbatim>\<open>value.split(' ', 1)\<close>: at most one split, at the first space.\<close>

definition split_space_1 :: "string \<Rightarrow> string list" where
  "split_space_1 s =
     (case str_find (CHR '' '') s of
        None \<Rightarrow> [s]
      | Some i \<Rightarrow> [take i s, drop (Suc i) s])"

text \<open>\<^verbatim>\<open>str(i)\<close> for an integer: decimal digits, with a minus sign.\<close>

definition digit_char :: "nat \<Rightarrow> char" where
  "digit_char d = char_of (48 + d)"

fun nat_digits :: "nat \<Rightarrow> string" where
  "nat_digits n =
     (if n < 10 then [digit_char n] else nat_digits (n div 10) @ [digit_char (n mod 10)])"

declare nat_digits.simps [simp del]

definition str_int :: "int \<Rightarrow> string" where
  "str_int i = (if i < 0 then CHR ''-'' # nat_digits (nat (- i)) else nat_digits (nat i))"

text \<open>
  Strings are sequences of 8-bit characters: the UTF-8 encoding of the Python string.
  The characters at which the module splits a string, the colon and the space, are
  single bytes that occur in no longer UTF-8 sequence, so the parts are the same.

  Two builtins depend on the Unicode tables of the interpreter and are parameters of
  the definitions that call them: \<open>py_int\<close> is \<^verbatim>\<open>int(s)\<close> on a string, with
  \<open>None\<close> where it raises \<^verbatim>\<open>ValueError\<close>, and \<open>py_lower\<close> is
  \<^verbatim>\<open>s.lower()\<close>. The theorems hold for every such pair.
\<close>

record python =
  py_int :: "string \<Rightarrow> int option"
  py_lower :: "string \<Rightarrow> string"

section \<open>XML elements (lxml.etree)\<close>

text \<open>
  An element has a qualified tag (namespace and local name), the prefix bindings that
  \<^verbatim>\<open>node.nsmap\<close> returns, its attributes under qualified names, its text and its
  child elements, in document order.
\<close>

type_synonym qname = "string option \<times> string"

datatype element =
  Element (el_tag: qname) (el_nsmap: "(string \<times> string) list")
    (el_attrib: "(qname \<times> string) list") (el_text: "string option")
    (el_children: "element list")

text \<open>\<^verbatim>\<open>lxml.etree.Element(tag)\<close>, with no namespace.\<close>

definition new_element :: "string \<Rightarrow> element" where
  "new_element t = Element (None, t) [] [] None []"

definition el_get :: "element \<Rightarrow> qname \<Rightarrow> string option" where
  "el_get node key = map_of (el_attrib node) key"

definition el_append :: "element \<Rightarrow> element \<Rightarrow> element" where
  "el_append node child =
     Element (el_tag node) (el_nsmap node) (el_attrib node) (el_text node)
       (el_children node @ [child])"

definition el_set_text :: "element \<Rightarrow> string \<Rightarrow> element" where
  "el_set_text node s =
     Element (el_tag node) (el_nsmap node) (el_attrib node) (Some s) (el_children node)"

text \<open>\<^verbatim>\<open>node.find(name)\<close>: the first child with that tag and no namespace.\<close>

definition el_find :: "element \<Rightarrow> string \<Rightarrow> element option" where
  "el_find node name = find (\<lambda>c. el_tag c = (None, name)) (el_children node)"

text \<open>
  \<^verbatim>\<open>node.iter(tag)\<close>: the element itself and all its descendants in document order,
  restricted to one tag.
\<close>

fun el_iter_all :: "element \<Rightarrow> element list" where
  "el_iter_all (Element t m a x cs) = Element t m a x cs # concat (map el_iter_all cs)"

definition el_iter :: "qname \<Rightarrow> element \<Rightarrow> element list" where
  "el_iter t node = filter (\<lambda>c. el_tag c = t) (el_iter_all node)"

text \<open>
  A namespace that has no prefix in scope gets one when an attribute name or a
  qualified attribute value needs it: the well-known prefix of the namespace, if lxml
  has one for it and that prefix is not in use, and else a generated prefix
  \<^verbatim>\<open>ns0\<close>, \<^verbatim>\<open>ns1\<close>, ... that is not in use. lxml numbers the generated
  prefixes by a counter of the document; for an element made by
  \<^verbatim>\<open>lxml.etree.Element\<close>, which is a document of its own, that is the first free
  one.
\<close>

definition default_prefix :: "string \<Rightarrow> string option" where
  "default_prefix uri =
     map_of
       [(''http://www.w3.org/XML/1998/namespace'', ''xml''),
        (''http://www.w3.org/1999/xhtml'', ''html''),
        (''http://www.w3.org/1999/XSL/Transform'', ''xsl''),
        (''http://www.w3.org/1999/02/22-rdf-syntax-ns#'', ''rdf''),
        (''http://schemas.xmlsoap.org/wsdl/'', ''wsdl''),
        (''http://www.w3.org/2001/XMLSchema'', ''xs''),
        (''http://www.w3.org/2001/XMLSchema-instance'', ''xsi''),
        (''http://purl.org/dc/elements/1.1/'', ''dc''),
        (''http://codespeak.net/lxml/objectify/pytype'', ''py'')] uri"

definition generated_prefix :: "(string \<times> string) list \<Rightarrow> string" where
  "generated_prefix m =
     (case find (\<lambda>p. p \<notin> set (map fst m))
             (map (\<lambda>k. ''ns'' @ nat_digits k) [0 ..< Suc (length m)]) of
        Some p \<Rightarrow> p
      | None \<Rightarrow> ''ns'')"

definition new_prefix :: "(string \<times> string) list \<Rightarrow> string \<Rightarrow> string" where
  "new_prefix m uri =
     (case default_prefix uri of
        Some p \<Rightarrow> if p \<in> set (map fst m) then generated_prefix m else p
      | None \<Rightarrow> generated_prefix m)"

definition find_or_build_ns ::
  "(string \<times> string) list \<Rightarrow> string \<Rightarrow> string \<times> (string \<times> string) list" where
  "find_or_build_ns m uri =
     (case find (\<lambda>b. snd b = uri) m of
        Some b \<Rightarrow> (fst b, m)
      | None \<Rightarrow> (new_prefix m uri, m @ [(new_prefix m uri, uri)]))"

fun attrib_update :: "qname \<Rightarrow> string \<Rightarrow> (qname \<times> string) list \<Rightarrow> (qname \<times> string) list" where
  "attrib_update k v [] = [(k, v)]"
| "attrib_update k v (b # bs) =
     (if fst b = k then (k, v) # bs else b # attrib_update k v bs)"

text \<open>\<^verbatim>\<open>node.set(QName(ns, name).text, value)\<close> with a plain string value.\<close>

definition el_set :: "element \<Rightarrow> string \<Rightarrow> string \<Rightarrow> string \<Rightarrow> element" where
  "el_set node ns name v =
     Element (el_tag node) (snd (find_or_build_ns (el_nsmap node) ns))
       (attrib_update (Some ns, name) v (el_attrib node)) (el_text node) (el_children node)"

text \<open>
  The same with a \<^verbatim>\<open>QName\<close> as value: the value is written as
  \<^verbatim>\<open>prefix:local\<close>, with a prefix bound to the value's namespace on the element.
\<close>

definition el_set_qname :: "element \<Rightarrow> string \<Rightarrow> string \<Rightarrow> string \<Rightarrow> string \<Rightarrow> element" where
  "el_set_qname node ns name vns vlocal =
     (case find_or_build_ns (el_nsmap node) vns of
        (p, m) \<Rightarrow>
          Element (el_tag node) (snd (find_or_build_ns m ns))
            (attrib_update (Some ns, name) (p @ '':'' @ vlocal) (el_attrib node))
            (el_text node) (el_children node))"

section \<open>WSDL handling\<close>

definition split_text_namespace :: "element \<Rightarrow> string \<Rightarrow> string \<times> string option" where
  "split_text_namespace node text =
     (case str_find (CHR '':'') text of
        None \<Rightarrow> (text, None)
      | Some i \<Rightarrow> (drop (Suc i) text, map_of (el_nsmap node) (take i text)))"

definition NAMESPACE_XSI :: string where
  "NAMESPACE_XSI = ''http://www.w3.org/2001/XMLSchema-instance''"

definition NAMESPACE_XSD :: string where
  "NAMESPACE_XSD = ''http://www.w3.org/2001/XMLSchema''"

definition NAMESPACE_XML_SOAP :: string where
  "NAMESPACE_XML_SOAP = ''http://xml.apache.org/xml-soap''"

definition NAMESPACE_XML_SOAP_ENCODING :: string where
  "NAMESPACE_XML_SOAP_ENCODING = ''http://schemas.xmlsoap.org/soap/encoding/''"

definition set_type :: "element \<Rightarrow> string \<Rightarrow> string \<Rightarrow> element" where
  "set_type node namespace type = el_set_qname node NAMESPACE_XSI ''type'' namespace type"

subsection \<open>Python values\<close>

text \<open>
  The values the codec meets: \<^verbatim>\<open>None\<close>, strings, integers, booleans, dictionaries
  (their items in insertion order) and lists; \<open>POther\<close> stands for an object of any
  other type, named by its type.
\<close>

datatype pyvalue =
    PNone
  | PStr string
  | PInt int
  | PBool bool
  | PDict "(pyvalue \<times> pyvalue) list"
  | PList "pyvalue list"
  | POther string

text \<open>
  \<^verbatim>\<open>isinstance\<close>: \<^verbatim>\<open>bool\<close> is a subclass of \<^verbatim>\<open>int\<close>, so a boolean is an
  instance of \<^verbatim>\<open>int\<close> as well.
\<close>

fun isinstance_str :: "pyvalue \<Rightarrow> bool" where
  "isinstance_str (PStr s) = True"
| "isinstance_str v = False"

fun isinstance_int :: "pyvalue \<Rightarrow> bool" where
  "isinstance_int (PInt i) = True"
| "isinstance_int (PBool b) = True"
| "isinstance_int v = False"

fun isinstance_bool :: "pyvalue \<Rightarrow> bool" where
  "isinstance_bool (PBool b) = True"
| "isinstance_bool v = False"

fun isinstance_dict :: "pyvalue \<Rightarrow> bool" where
  "isinstance_dict (PDict kvs) = True"
| "isinstance_dict v = False"

fun isinstance_list :: "pyvalue \<Rightarrow> bool" where
  "isinstance_list (PList xs) = True"
| "isinstance_list v = False"

fun str_value :: "pyvalue \<Rightarrow> string" where
  "str_value (PStr s) = s"
| "str_value v = []"

text \<open>\<^verbatim>\<open>str(value)\<close> on an instance of \<^verbatim>\<open>int\<close>.\<close>

fun py_str :: "pyvalue \<Rightarrow> string" where
  "py_str (PInt i) = str_int i"
| "py_str (PBool b) = (if b then ''True'' else ''False'')"
| "py_str v = []"

fun bool_value :: "pyvalue \<Rightarrow> bool" where
  "bool_value (PBool b) = b"
| "bool_value v = False"

fun dict_items :: "pyvalue \<Rightarrow> (pyvalue \<times> pyvalue) list" where
  "dict_items (PDict kvs) = kvs"
| "dict_items v = []"

fun list_elts :: "pyvalue \<Rightarrow> pyvalue list" where
  "list_elts (PList xs) = xs"
| "list_elts v = []"

fun type_name :: "pyvalue \<Rightarrow> string" where
  "type_name (POther n) = n"
| "type_name v = []"

subsection \<open>encode_wsdl\<close>

text \<open>
  The tests are made in the order of the source. The element is changed in place
  there; here the changed element is returned. The two loops over the items of a
  dictionary and over the elements of a list are \<open>encode_dict_items\<close> and
  \<open>encode_list_elts\<close>.
\<close>

lemma size_dict_items: "isinstance_dict v \<Longrightarrow> size_list (size_prod size size) (dict_items v) < size v"
  by (cases v) auto

lemma size_list_elts: "isinstance_list v \<Longrightarrow> size_list size (list_elts v) < size v"
  by (cases v) auto

function encode_wsdl :: "element \<Rightarrow> pyvalue \<Rightarrow> element exception + element"
  and encode_dict_items :: "element \<Rightarrow> (pyvalue \<times> pyvalue) list \<Rightarrow> element exception + element"
  and encode_list_elts :: "element \<Rightarrow> pyvalue list \<Rightarrow> element exception + element"
where
  "encode_wsdl node value =
     (if value = PNone then Inr (el_set node NAMESPACE_XSI ''nil'' ''true'')
      else if isinstance_str value then
        Inr (el_set_text (set_type node NAMESPACE_XSD ''string'') (str_value value))
      else if isinstance_int value then
        Inr (el_set_text (set_type node NAMESPACE_XSD ''int'') (py_str value))
      else if isinstance_bool value then
        Inr (el_set_text (set_type node NAMESPACE_XSD ''boolean'')
               (if bool_value value then ''true'' else ''false''))
      else if isinstance_dict value then
        encode_dict_items (set_type node NAMESPACE_XML_SOAP ''Map'') (dict_items value)
      else if isinstance_list value then
        encode_list_elts (set_type node NAMESPACE_XML_SOAP_ENCODING ''Array'') (list_elts value)
      else Inl (WSDLCodingException (''Do not know how to encode '' @ type_name value @ ''!'')))"
| "encode_dict_items node [] = Inr node"
| "encode_dict_items node (item # items) =
     (case encode_wsdl (new_element ''key'') (fst item) of
        Inl e \<Rightarrow> Inl e
      | Inr ke \<Rightarrow>
          (case encode_wsdl (new_element ''value'') (snd item) of
             Inl e \<Rightarrow> Inl e
           | Inr ve \<Rightarrow>
               encode_dict_items
                 (el_append node (el_append (el_append (new_element ''item'') ke) ve)) items))"
| "encode_list_elts node [] = Inr node"
| "encode_list_elts node (elt # elts) =
     (case encode_wsdl (new_element ''item'') elt of
        Inl e \<Rightarrow> Inl e
      | Inr child \<Rightarrow> encode_list_elts (el_append node child) elts)"
  by pat_completeness auto

termination
  by (relation "measure (\<lambda>x. case x of
            Inl (n, v) \<Rightarrow> size v
          | Inr (Inl (n, kvs)) \<Rightarrow> size_list (size_prod size size) kvs
          | Inr (Inr (n, xs)) \<Rightarrow> size_list size xs)")
     (auto simp: size_dict_items size_list_elts)


subsection \<open>decode_wsdl\<close>

text \<open>
  \<^verbatim>\<open>result[key] = value\<close> on a dictionary: the key must be hashable, an equal key
  keeps its place and gets the new value (\<^verbatim>\<open>True == 1\<close> and \<^verbatim>\<open>False == 0\<close>
  hold in Python), a new key goes to the end.
\<close>

fun hashable :: "pyvalue \<Rightarrow> bool" where
  "hashable (PDict kvs) = False"
| "hashable (PList xs) = False"
| "hashable v = True"

fun int_like :: "pyvalue \<Rightarrow> int option" where
  "int_like (PInt i) = Some i"
| "int_like (PBool b) = Some (if b then 1 else 0)"
| "int_like v = None"

definition key_eq :: "pyvalue \<Rightarrow> pyvalue \<Rightarrow> bool" where
  "key_eq a b =
     (a = b \<or> (case int_like a of
                  None \<Rightarrow> False
                | Some i \<Rightarrow> (case int_like b of None \<Rightarrow> False | Some j \<Rightarrow> i = j)))"

fun dict_set :: "(pyvalue \<times> pyvalue) list \<Rightarrow> pyvalue \<Rightarrow> pyvalue \<Rightarrow> (pyvalue \<times> pyvalue) list" where
  "dict_set [] k v = [(k, v)]"
| "dict_set (b # bs) k v =
     (if key_eq (fst b) k then (fst b, v) # bs else b # dict_set bs k v)"

text \<open>
  The two loops \<^verbatim>\<open>for item in node\<close> are \<open>decode_map_items\<close> and
  \<open>decode_array_items\<close>; they carry \<^verbatim>\<open>result\<close>. \<^verbatim>\<open>int(node.text)\<close> raises
  \<^verbatim>\<open>TypeError\<close> on a missing text and \<^verbatim>\<open>ValueError\<close> on a text that is no integer.
\<close>

lemma size_el_children: "size_list size (el_children node) < size node"
  by (cases node) simp

lemma size_find: "find P xs = Some x \<Longrightarrow> size x \<le> size_list size xs"
  by (induction xs) (auto split: if_splits)

lemma size_el_find: "el_find item name = Some c \<Longrightarrow> size c < size item"
  unfolding el_find_def using size_find [of _ "el_children item" c] size_el_children [of item]
  by fastforce

function decode_wsdl :: "python \<Rightarrow> element \<Rightarrow> element exception + pyvalue"
  and decode_map_items ::
    "python \<Rightarrow> element list \<Rightarrow> (pyvalue \<times> pyvalue) list \<Rightarrow> element exception + pyvalue"
  and decode_array_items :: "python \<Rightarrow> element list \<Rightarrow> pyvalue list \<Rightarrow> element exception + pyvalue"
where
  "decode_wsdl py node =
     (if el_get node (Some NAMESPACE_XSI, ''nil'') = Some ''true'' then Inr PNone
      else
        (case el_get node (Some NAMESPACE_XSI, ''type'') of
           None \<Rightarrow> Inl (WSDLCodingException ''Element has no xsi:type tag!'')
         | Some type_with_ns \<Rightarrow>
             (case snd (split_text_namespace node type_with_ns) of
                None \<Rightarrow> Inl (WSDLCodingException ''Cannot find namespace!'')
              | Some ns \<Rightarrow>
                  let type = fst (split_text_namespace node type_with_ns) in
                  if ns = NAMESPACE_XSD then
                    (if type = ''boolean'' then
                       (if el_text node = Some ''true'' then Inr (PBool True)
                        else if el_text node = Some ''false'' then Inr (PBool False)
                        else Inl (WSDLCodingException ''Invalid value for boolean''))
                     else if type = ''int'' then
                       (case el_text node of
                          None \<Rightarrow> Inl TypeError
                        | Some s \<Rightarrow>
                            (case py_int py s of None \<Rightarrow> Inl ValueError | Some i \<Rightarrow> Inr (PInt i)))
                     else if type = ''string'' then
                       Inr (case el_text node of None \<Rightarrow> PNone | Some s \<Rightarrow> PStr s)
                     else Inl (WSDLCodingException ''Unknown XSD type!''))
                  else if ns = NAMESPACE_XML_SOAP then
                    (if type = ''Map'' then decode_map_items py (el_children node) []
                     else Inl (WSDLCodingException ''Unknown XSD type!''))
                  else if ns = NAMESPACE_XML_SOAP_ENCODING then
                    (if type = ''Array'' then decode_array_items py (el_children node) []
                     else Inl (WSDLCodingException ''Unknown XSD type!''))
                  else Inl (WSDLCodingException ''Unknown type namespace!''))))"
| "decode_map_items py [] result = Inr (PDict result)"
| "decode_map_items py (item # items) result =
     (if el_tag item \<noteq> (None, ''item'')
      then Inl (WSDLCodingException ''Invalid child tag in map!'')
      else
        (case el_find item ''key'' of
           None \<Rightarrow> Inl (WSDLCodingException ''Cannot find key!'')
         | Some key \<Rightarrow>
             (case decode_wsdl py key of
                Inl e \<Rightarrow> Inl e
              | Inr key' \<Rightarrow>
                  (case el_find item ''value'' of
                     None \<Rightarrow> Inl (WSDLCodingException ''Cannot find value!'')
                   | Some val \<Rightarrow>
                       (case decode_wsdl py val of
                          Inl e \<Rightarrow> Inl e
                        | Inr val' \<Rightarrow>
                            if hashable key'
                            then decode_map_items py items (dict_set result key' val')
                            else Inl TypeError)))))"
| "decode_array_items py [] result = Inr (PList result)"
| "decode_array_items py (item # items) result =
     (if el_tag item \<noteq> (None, ''item'')
      then Inl (WSDLCodingException ''Invalid child tag in map!'')
      else
        (case decode_wsdl py item of
           Inl e \<Rightarrow> Inl e
         | Inr v \<Rightarrow> decode_array_items py items (result @ [v])))"
  by pat_completeness auto

termination
  by (relation "measure (\<lambda>x. case x of
            Inl (py, node) \<Rightarrow> size node
          | Inr (Inl (py, items, r)) \<Rightarrow> size_list size items
          | Inr (Inr (py, items, r)) \<Rightarrow> size_list size items)")
     (auto simp: size_el_children dest: size_el_find)

text \<open>Encoding a value into a new element and decoding that element.\<close>

definition decode_encoded :: "python \<Rightarrow> pyvalue \<Rightarrow> element exception + pyvalue" where
  "decode_encoded py v =
     (case encode_wsdl (new_element ''arg'') v of Inl e \<Rightarrow> Inl e | Inr node \<Rightarrow> decode_wsdl py node)"

subsection \<open>Parser\<close>

record Parser =
  parser_header :: "string \<rightharpoonup> pyvalue"
  parser_body :: "string \<rightharpoonup> pyvalue"

definition main_ns :: string where
  "main_ns = ''http://schemas.xmlsoap.org/soap/envelope/''"

text \<open>The inner loop of \<^verbatim>\<open>_parse\<close>: \<^verbatim>\<open>for res in child.iter('return')\<close>.\<close>

fun parse_returns ::
  "python \<Rightarrow> (string \<rightharpoonup> pyvalue) \<Rightarrow> string \<Rightarrow> element list \<Rightarrow> element exception + (string \<rightharpoonup> pyvalue)" where
  "parse_returns py result localname [] = Inr result"
| "parse_returns py result localname (res # rest) =
     (case decode_wsdl py res of
        Inl e \<Rightarrow> Inl e
      | Inr v \<Rightarrow> parse_returns py (result(localname \<mapsto> v)) localname rest)"

text \<open>The outer loop of \<^verbatim>\<open>_parse\<close>: \<^verbatim>\<open>for child in node\<close>.\<close>

fun parse_children ::
  "python \<Rightarrow> string \<Rightarrow> (string \<rightharpoonup> pyvalue) \<Rightarrow> element list \<Rightarrow> element exception + (string \<rightharpoonup> pyvalue)" where
  "parse_children py api result [] = Inr result"
| "parse_children py api result (child # rest) =
     (if fst (el_tag child) \<noteq> Some api
      then Inl (WSDLCodingException ''Cannot interpret item!'')
      else
        (case parse_returns py result (snd (el_tag child)) (el_iter (None, ''return'') child) of
           Inl e \<Rightarrow> Inl e
         | Inr result' \<Rightarrow> parse_children py api result' rest))"

definition parse :: "python \<Rightarrow> string \<Rightarrow> (string \<rightharpoonup> pyvalue) \<Rightarrow> element \<Rightarrow> element exception + (string \<rightharpoonup> pyvalue)" where
  "parse py api result node = parse_children py api result (el_children node)"

text \<open>
  The loops of the constructor over the \<^verbatim>\<open>Header\<close> and the \<^verbatim>\<open>Body\<close> elements
  of the document.
\<close>

fun parse_sections ::
  "python \<Rightarrow> string \<Rightarrow> (string \<rightharpoonup> pyvalue) \<Rightarrow> element list \<Rightarrow> element exception + (string \<rightharpoonup> pyvalue)" where
  "parse_sections py api result [] = Inr result"
| "parse_sections py api result (sect # rest) =
     (case parse py api result sect of
        Inl e \<Rightarrow> Inl e
      | Inr result' \<Rightarrow> parse_sections py api result' rest)"

text \<open>The body of the loop over the fault elements: it always raises.\<close>

text \<open>
  \<^verbatim>\<open>e is not None and e.text\<close>: the text of the element when the element is there
  and its text is not empty.
\<close>

definition truthy_text :: "element option \<Rightarrow> string option" where
  "truthy_text e =
     (case e of
        None \<Rightarrow> None
      | Some n \<Rightarrow>
          (case el_text n of None \<Rightarrow> None | Some s \<Rightarrow> if s = [] then None else Some s))"

definition fault_origin :: "python \<Rightarrow> element \<Rightarrow> string" where
  "fault_origin py fault =
     (case truthy_text (el_find fault ''faultcode'') of
        None \<Rightarrow> ''server''
      | Some code_text \<Rightarrow>
          (case split_text_namespace fault code_text of
             (code, code_ns) \<Rightarrow> if code_ns = Some main_ns then py_lower py code else ''server''))"

definition raise_fault :: "python \<Rightarrow> element \<Rightarrow> element exception" where
  "raise_fault py fault =
     (case truthy_text (el_find fault ''faultstring'') of
        Some message \<Rightarrow> WSDLError (fault_origin py fault) (FaultString message)
      | None \<Rightarrow> WSDLError (fault_origin py fault) (FaultElement fault))"

definition Parser_init :: "python \<Rightarrow> string \<Rightarrow> element \<Rightarrow> element exception + Parser" where
  "Parser_init py api root =
     (case el_iter (Some main_ns, ''Fault'') root of
        fault # faults \<Rightarrow> Inl (raise_fault py fault)
      | [] \<Rightarrow>
          (case parse_sections py api Map.empty (el_iter (Some main_ns, ''Header'') root) of
             Inl e \<Rightarrow> Inl e
           | Inr header \<Rightarrow>
               (case parse_sections py api Map.empty (el_iter (Some main_ns, ''Body'') root) of
                  Inl e \<Rightarrow> Inl e
                | Inr body \<Rightarrow> Inr \<lparr>parser_header = header, parser_body = body\<rparr>)))"

definition get_header :: "Parser \<Rightarrow> string \<Rightarrow> element exception + pyvalue" where
  "get_header p header =
     (case parser_header p header of None \<Rightarrow> Inl (KeyError header) | Some v \<Rightarrow> Inr v)"

definition get_result :: "Parser \<Rightarrow> string \<Rightarrow> element exception + pyvalue" where
  "get_result p body =
     (case parser_body p body of None \<Rightarrow> Inl (KeyError body) | Some v \<Rightarrow> Inr v)"

text \<open>
  The entries that \<^verbatim>\<open>_parse\<close> stores, in the order in which it stores them: for
  each child, its local name with each of its \<^verbatim>\<open>return\<close> elements.
\<close>

definition return_entries :: "element list \<Rightarrow> (string \<times> element) list" where
  "return_entries cs =
     concat (map (\<lambda>child. map (\<lambda>res. (snd (el_tag child), res))
                                (el_iter (None, ''return'') child)) cs)"

fun store_entries ::
  "python \<Rightarrow> (string \<rightharpoonup> pyvalue) \<Rightarrow> (string \<times> element) list \<Rightarrow> element exception + (string \<rightharpoonup> pyvalue)" where
  "store_entries py result [] = Inr result"
| "store_entries py result (e # es) =
     (case decode_wsdl py (snd e) of
        Inl x \<Rightarrow> Inl x
      | Inr v \<Rightarrow> store_entries py (result(fst e \<mapsto> v)) es)"

subsection \<open>Composer.execute and HostTechAPI._execute\<close>

text \<open>
  What \<^verbatim>\<open>Composer.execute\<close> does with the answer of the transport: the status code
  and the parsed document \<^verbatim>\<open>lxml.etree.fromstring(result)\<close>.
\<close>

definition execute :: "python \<Rightarrow> string \<Rightarrow> int \<Rightarrow> element \<Rightarrow> element exception + Parser" where
  "execute py api code root =
     (if code < 200 \<or> code \<ge> 300 then
        (case Parser_init py api root of
           Inl e \<Rightarrow> Inl e
         | Inr p \<Rightarrow> Inl (WSDLError ''server'' (HttpStatus code)))
      else Parser_init py api root)"

datatype pytype = TInt | TBool | TDict

fun isinstance :: "pyvalue \<Rightarrow> pytype \<Rightarrow> bool" where
  "isinstance v TInt = isinstance_int v"
| "isinstance v TBool = isinstance_bool v"
| "isinstance v TDict = isinstance_dict v"

definition api_execute ::
  "python \<Rightarrow> string \<Rightarrow> int \<Rightarrow> element \<Rightarrow> string \<Rightarrow> pytype \<Rightarrow> element exception + pyvalue" where
  "api_execute py api code root result_name acceptable_types =
     (case execute py api code root of
        Inl e \<Rightarrow> Inl e
      | Inr result \<Rightarrow>
          (case get_header result ''authenticateResponse'' of
             Inl e \<Rightarrow> Inl e
           | Inr h \<Rightarrow>
               if h \<noteq> PBool True then Inl (HostTechAPIAuthError ''Error on authentication!'')
               else
                 (case get_result result result_name of
                    Inl e \<Rightarrow> Inl e
                  | Inr res \<Rightarrow>
                      if isinstance res acceptable_types then Inr res
                      else Inl (HostTechAPIError ''Result has unexpected type!''))))"

text \<open>\<^verbatim>\<open>Parser(api, root).get_result(body)\<close>.\<close>

definition parse_and_get_result ::
  "python \<Rightarrow> string \<Rightarrow> element \<Rightarrow> string \<Rightarrow> element exception + pyvalue" where
  "parse_and_get_result py api root body =
     (case Parser_init py api root of Inl e \<Rightarrow> Inl e | Inr p \<Rightarrow> get_result p body)"

section \<open>DNS records (class DNSRecord)\<close>

text \<open>
  The fields of \<^verbatim>\<open>DNSRecord\<close>. Every field that the constructor sets to
  \<^verbatim>\<open>None\<close> is optional; \<^verbatim>\<open>ttl\<close> is always an integer.
\<close>

record DNSRecord =
  rec_id :: "int option"
  rec_zone :: "int option"
  rec_type :: "string option"
  rec_prefix :: "string option"
  rec_target :: "string option"
  rec_ttl :: int
  rec_priority :: "int option"

definition DNSRecord_init :: DNSRecord where
  "DNSRecord_init =
     \<lparr>rec_id = None, rec_zone = None, rec_type = None, rec_prefix = None,
      rec_target = None, rec_ttl = 86400, rec_priority = None\<rparr>"

text \<open>
  A desired value is the tuple \<^verbatim>\<open>(priority, target)\<close>; it is compared with
  \<^verbatim>\<open>(record.priority, record.target)\<close>, so both components have the type of
  the record's fields.
\<close>

type_synonym rvalue = "int option \<times> string option"

section \<open>The module run (run_module py of hosttech_dns.py)\<close>

datatype state = Present | Absent | Get

subsection \<open>Find matching records\<close>

definition find_matching_records ::
  "string option \<Rightarrow> string \<Rightarrow> DNSRecord list \<Rightarrow> DNSRecord list" where
  "find_matching_records prefix type_in zone_records =
     filter (\<lambda>record. rec_prefix record = prefix \<and> rec_type record = Some type_in) zone_records"

subsection \<open>Compare records\<close>

text \<open>
  The loop over \<^verbatim>\<open>records\<close>. Its state is the flag \<^verbatim>\<open>mismatch\<close>, the list
  \<^verbatim>\<open>mismatch_records\<close> and the list \<^verbatim>\<open>values\<close>, from which
  \<^verbatim>\<open>values.remove(val)\<close> takes the first occurrence of a matched value.
\<close>

fun compare_records ::
  "int \<Rightarrow> DNSRecord list \<Rightarrow> bool \<times> DNSRecord list \<times> rvalue list
     \<Rightarrow> bool \<times> DNSRecord list \<times> rvalue list" where
  "compare_records ttl_in [] st = st"
| "compare_records ttl_in (record # records) (mismatch, mismatch_records, values) =
     (if rec_ttl record \<noteq> ttl_in
      then compare_records ttl_in records (True, mismatch_records @ [record], values)
      else
        let val = (rec_priority record, rec_target record) in
        if val \<in> set values
        then compare_records ttl_in records (mismatch, mismatch_records, remove1 val values)
        else compare_records ttl_in records (True, mismatch_records @ [record], values))"

text \<open>The whole comparison, with the final \<^verbatim>\<open>if values: mismatch = True\<close>.\<close>

definition compare ::
  "int \<Rightarrow> DNSRecord list \<Rightarrow> rvalue list \<Rightarrow> bool \<times> DNSRecord list \<times> rvalue list" where
  "compare ttl_in records values =
     (case compare_records ttl_in records (False, [], values) of
        (mismatch, mismatch_records, values') \<Rightarrow>
          (if values' \<noteq> [] then True else mismatch, mismatch_records, values'))"

subsection \<open>Determine what to do\<close>

record actions =
  to_create :: "DNSRecord list"
  to_delete :: "DNSRecord list"
  to_change :: "DNSRecord list"

definition no_actions :: actions where
  "no_actions = \<lparr>to_create = [], to_delete = [], to_change = []\<rparr>"

text \<open>The five assignments at the end of the body of the loop over \<^verbatim>\<open>values\<close>.\<close>

definition set_fields ::
  "string option \<Rightarrow> string \<Rightarrow> int \<Rightarrow> rvalue \<Rightarrow> DNSRecord \<Rightarrow> DNSRecord" where
  "set_fields prefix type_in ttl_in v record =
     record\<lparr>rec_prefix := prefix, rec_type := Some type_in, rec_ttl := ttl_in,
            rec_priority := fst v, rec_target := snd v\<rparr>"

text \<open>
  \<^verbatim>\<open>for priority, target in values\<close>: a record popped from the end of
  \<^verbatim>\<open>to_delete\<close> is changed, and a new record is created once
  \<^verbatim>\<open>to_delete\<close> is empty.
\<close>

fun assign_values ::
  "string option \<Rightarrow> string \<Rightarrow> int \<Rightarrow> rvalue list \<Rightarrow> actions \<Rightarrow> actions" where
  "assign_values prefix type_in ttl_in [] a = a"
| "assign_values prefix type_in ttl_in (v # values) a =
     (if to_delete a \<noteq> []
      then assign_values prefix type_in ttl_in values
             (a\<lparr>to_delete := butlast (to_delete a),
                to_change := to_change a @ [set_fields prefix type_in ttl_in v (last (to_delete a))]\<rparr>)
      else assign_values prefix type_in ttl_in values
             (a\<lparr>to_create := to_create a @ [set_fields prefix type_in ttl_in v DNSRecord_init]\<rparr>))"

text \<open>
  How a run ends: \<^verbatim>\<open>module.exit_json\<close> with the flag \<^verbatim>\<open>changed\<close> (and, for
  \<^verbatim>\<open>get\<close>, the dictionary \<^verbatim>\<open>set\<close>), \<^verbatim>\<open>module.fail_json\<close> with a
  message, or an exception that nothing catches.
\<close>

record get_data =
  data_record :: string
  data_type :: string
  data_ttl :: int
  data_value :: "string option list"
  data_ttls :: "int set list option"

datatype module_result =
    ExitJson bool
  | ExitJsonSet bool "get_data option"
  | FailJson string
  | Uncaught "element exception"

definition already_exists :: string where
  "already_exists = ''Record already exists with different value. Set 'overwrite' to replace it''"

text \<open>
  The branch for \<^verbatim>\<open>state == 'present'\<close>. The variable \<^verbatim>\<open>do_create\<close> is
  assigned but never read, so it does not appear. \<^verbatim>\<open>module.fail_json\<close> ends the
  run.
\<close>

definition determine_present ::
  "bool option \<Rightarrow> string option \<Rightarrow> string \<Rightarrow> int \<Rightarrow> DNSRecord list
     \<Rightarrow> bool \<Rightarrow> DNSRecord list \<Rightarrow> rvalue list \<Rightarrow> actions \<Rightarrow> module_result + actions" where
  "determine_present overwrite prefix type_in ttl_in records mismatch mismatch_records values a =
     (case
        (if records \<noteq> [] then
           if mismatch then
             if overwrite = Some True
             then Inr (a\<lparr>to_delete := to_delete a @ mismatch_records\<rparr>)
             else Inl (FailJson already_exists)
           else Inr a
         else Inr a)
      of Inl e \<Rightarrow> Inl e
       | Inr a' \<Rightarrow> Inr (assign_values prefix type_in ttl_in values a'))"

definition determine_absent :: "DNSRecord list \<Rightarrow> bool \<Rightarrow> actions \<Rightarrow> actions" where
  "determine_absent records mismatch a =
     (if \<not> mismatch then a\<lparr>to_delete := to_delete a @ records\<rparr> else a)"

definition determine_actions ::
  "state \<Rightarrow> bool option \<Rightarrow> string option \<Rightarrow> string \<Rightarrow> int \<Rightarrow> DNSRecord list
     \<Rightarrow> bool \<Rightarrow> DNSRecord list \<Rightarrow> rvalue list \<Rightarrow> module_result + actions" where
  "determine_actions st overwrite prefix type_in ttl_in records mismatch mismatch_records values =
     (case
        (if st = Present
         then determine_present overwrite prefix type_in ttl_in records
                mismatch mismatch_records values no_actions
         else Inr no_actions)
      of Inl e \<Rightarrow> Inl e
       | Inr a \<Rightarrow> Inr (if st = Absent then determine_absent records mismatch a else a))"

text \<open>
  Comparison and decision together: the part of the run between the parsing of the
  values and the remote calls, as a function of the candidate records and the parsed
  values.
\<close>

definition reconcile ::
  "state \<Rightarrow> bool option \<Rightarrow> string option \<Rightarrow> string \<Rightarrow> int \<Rightarrow> DNSRecord list
     \<Rightarrow> rvalue list \<Rightarrow> module_result + actions" where
  "reconcile st overwrite prefix type_in ttl_in records values =
     (case compare ttl_in records values of
        (mismatch, mismatch_records, values') \<Rightarrow>
          determine_actions st overwrite prefix type_in ttl_in records
            mismatch mismatch_records values')"

subsection \<open>Process get\<close>

text \<open>
  The trailing comma makes \<^verbatim>\<open>ttls\<close> a tuple with one component, the set of the
  ttls; the tuple is the list \<open>[S]\<close> here. \<^verbatim>\<open>min(*ttls)\<close> unpacks it, so it is
  \<^verbatim>\<open>min(S)\<close>, and \<^verbatim>\<open>len(ttls)\<close> is the length of the tuple. An empty dictionary
  \<^verbatim>\<open>data\<close> is \<open>None\<close>.
\<close>

definition process_get :: "string \<Rightarrow> string \<Rightarrow> DNSRecord list \<Rightarrow> get_data option" where
  "process_get record_in type_in records =
     (if records \<noteq> [] then
        let ttls = [set (map rec_ttl records)] in
        Some \<lparr>data_record = record_in, data_type = type_in,
              data_ttl = Min (ttls ! 0),
              data_value = map rec_target records,
              data_ttls = (if length ttls > 1 then Some ttls else None)\<rparr>
      else None)"

text \<open>
  The same step in \<^verbatim>\<open>hosttech_dns_record_facts.py\<close>, where the set is built from a
  list and the minimum is \<^verbatim>\<open>min(*list(ttls))\<close>.
\<close>

definition facts_fetch_result :: "string \<Rightarrow> string \<Rightarrow> DNSRecord list \<Rightarrow> get_data option" where
  "facts_fetch_result record_in type_in records =
     (if records \<noteq> [] then
        let ttls = [set (map rec_ttl records)] in
        Some \<lparr>data_record = record_in, data_type = type_in,
              data_ttl = Min (ttls ! 0),
              data_value = map rec_target records,
              data_ttls = (if length ttls > 1 then Some ttls else None)\<rparr>
      else None)"

subsection \<open>Parse records\<close>

text \<open>
  \<^verbatim>\<open>priority, value = value.split(' ', 1)\<close> raises \<^verbatim>\<open>ValueError\<close> unless the
  split gives two parts, and so does \<^verbatim>\<open>int(priority)\<close> on a text that is no integer.
  Nothing catches it.
\<close>

fun parse_records ::
  "python \<Rightarrow> string \<Rightarrow> string list \<Rightarrow> rvalue list \<Rightarrow> module_result + rvalue list" where
  "parse_records py type_in [] values = Inr values"
| "parse_records py type_in (v # value_in) values =
     (if type_in \<in> {''PTR'', ''MX''} then
        (case split_space_1 v of
           [priority, target] \<Rightarrow>
             (case py_int py priority of
                None \<Rightarrow> Inl (Uncaught ValueError)
              | Some p \<Rightarrow> parse_records py type_in value_in (values @ [(Some p, Some target)]))
         | _ \<Rightarrow> Inl (Uncaught ValueError))
      else parse_records py type_in value_in (values @ [(None, Some v)]))"

text \<open>
  The two parts of a value with a priority, and the values for which the parsing does
  not raise.
\<close>

definition priority_part :: "string \<Rightarrow> string" where
  "priority_part v = takeWhile (\<lambda>c. c \<noteq> CHR '' '') v"

definition target_part :: "string \<Rightarrow> string" where
  "target_part v = tl (dropWhile (\<lambda>c. c \<noteq> CHR '' '') v)"

definition well_formed_priority_value :: "python \<Rightarrow> string \<Rightarrow> bool" where
  "well_formed_priority_value py v = (CHR '' '' \<in> set v \<and> py_int py (priority_part v) \<noteq> None)"

subsection \<open>Actually do something\<close>

text \<open>
  The remote calls of the run, in the order in which they are made. A record without
  id makes \<^verbatim>\<open>delete_record\<close> and \<^verbatim>\<open>update_record\<close> raise
  \<^verbatim>\<open>HostTechAPIError\<close> before anything is sent. The handler of the run evaluates
  \<^verbatim>\<open>e.message\<close>, which an exception of Python 3 does not have, so the handler
  raises \<^verbatim>\<open>AttributeError\<close> and nothing catches it. The answers of the remote
  service are not part of the model: every call that is sent is taken to succeed.
\<close>

datatype api_call =
    DeleteRecord DNSRecord
  | UpdateRecord DNSRecord
  | AddRecord string DNSRecord

fun missing_id :: "api_call \<Rightarrow> bool" where
  "missing_id (DeleteRecord record) = (rec_id record = None)"
| "missing_id (UpdateRecord record) = (rec_id record = None)"
| "missing_id (AddRecord search record) = False"

fun issue_calls :: "api_call list \<Rightarrow> api_call list \<Rightarrow> module_result \<times> api_call list" where
  "issue_calls [] sent = (ExitJson True, sent)"
| "issue_calls (c # cs) sent =
     (if missing_id c then (Uncaught AttributeError, sent)
      else issue_calls cs (sent @ [c]))"

definition calls_of :: "string \<Rightarrow> actions \<Rightarrow> api_call list" where
  "calls_of zone_in a =
     map DeleteRecord (to_delete a) @ map UpdateRecord (to_change a) @
     map (AddRecord zone_in) (to_create a)"

subsection \<open>The run from the matching records on\<close>

record params =
  p_state :: state
  p_zone_in :: string
  p_record_in :: string
  p_prefix :: "string option"
  p_type :: string
  p_ttl :: int
  p_value :: "string list"
  p_overwrite :: "bool option"
  p_check_mode :: bool

text \<open>
  The run after the zone has been fetched: \<open>zone_records\<close> are the records of the
  zone, and \<open>p_zone_in\<close>, \<open>p_record_in\<close> and \<open>p_prefix\<close> are the normalised zone,
  the normalised record name and the prefix computed from them. The result is how the
  run ends and the remote calls it has made after fetching the zone.
\<close>

definition run_module :: "python \<Rightarrow> params \<Rightarrow> DNSRecord list \<Rightarrow> module_result \<times> api_call list" where
  "run_module py p zone_records =
     (let records = find_matching_records (p_prefix p) (p_type p) zone_records in
      if p_state p = Get
      then (ExitJsonSet False (process_get (p_record_in p) (p_type p) records), [])
      else
        (case parse_records py (p_type p) (p_value p) [] of
           Inl e \<Rightarrow> (e, [])
         | Inr values \<Rightarrow>
             (case reconcile (p_state p) (p_overwrite p) (p_prefix p) (p_type p) (p_ttl p)
                     records values of
                Inl e \<Rightarrow> (e, [])
              | Inr a \<Rightarrow>
                  if length (to_create a) = 0 \<and> length (to_delete a) = 0
                     \<and> length (to_change a) = 0
                  then (ExitJson False, [])
                  else if \<not> p_check_mode p then issue_calls (calls_of (p_zone_in p) a) []
                  else (ExitJson True, []))))"

section \<open>The remote service\<close>

text \<open>
  What the calls do to the records of the group on the remote service, as the spec's
  table of operations describes them: \<^verbatim>\<open>deleteRecord\<close> removes the record with the
  id, \<^verbatim>\<open>updateRecord\<close> replaces the data of the record with the id by the data
  sent (type, prefix, target, ttl, priority), and \<^verbatim>\<open>addRecord\<close> adds the record
  under an id that the service assigns.
\<close>

definition fresh_id :: "DNSRecord list \<Rightarrow> int" where
  "fresh_id S = 1 + fold max (map (\<lambda>r. case rec_id r of None \<Rightarrow> 0 | Some i \<Rightarrow> i) S) 0"

fun remote :: "api_call \<Rightarrow> DNSRecord list \<Rightarrow> DNSRecord list" where
  "remote (DeleteRecord record) S = filter (\<lambda>r. rec_id r \<noteq> rec_id record) S"
| "remote (UpdateRecord record) S =
     map (\<lambda>r. if rec_id r = rec_id record
              then r\<lparr>rec_type := rec_type record, rec_prefix := rec_prefix record,
                     rec_target := rec_target record, rec_ttl := rec_ttl record,
                     rec_priority := rec_priority record\<rparr>
              else r) S"
| "remote (AddRecord search record) S = S @ [record\<lparr>rec_id := Some (fresh_id S)\<rparr>]"

text \<open>
  Applying the actions of a run to the candidate records: the deletions, then the
  changes, then the creations.
\<close>

definition apply_actions :: "string \<Rightarrow> actions \<Rightarrow> DNSRecord list \<Rightarrow> DNSRecord list" where
  "apply_actions zone_in a S = fold remote (calls_of zone_in a) S"

section \<open>The reconciliation as the design describes it\<close>

text \<open>The pair \<^verbatim>\<open>(priority, target)\<close> of a record.\<close>

definition rvalue_of :: "DNSRecord \<Rightarrow> rvalue" where
  "rvalue_of record = (rec_priority record, rec_target record)"

text \<open>
  The candidates match the desired state exactly: every candidate has the desired ttl,
  and the pairs of the candidates are the desired pairs, as multisets.
\<close>

definition exact_match :: "int \<Rightarrow> DNSRecord list \<Rightarrow> rvalue list \<Rightarrow> bool" where
  "exact_match ttl_in records values =
     (list_all (\<lambda>record. rec_ttl record = ttl_in) records \<and>
      mset (map rvalue_of records) = mset values)"

text \<open>
  The matching step in the words of the design: for each candidate in input order, a
  candidate with the desired ttl whose pair is in the pool takes one instance out of
  the pool; any other candidate goes to \<open>toReplace\<close>. The result is the matched
  candidates, \<open>toReplace\<close> and what is left of the pool.
\<close>

fun partition_records ::
  "int \<Rightarrow> DNSRecord list \<Rightarrow> rvalue list \<Rightarrow> DNSRecord list \<times> DNSRecord list \<times> rvalue list" where
  "partition_records ttl_in [] pool = ([], [], pool)"
| "partition_records ttl_in (c # cs) pool =
     (if rec_ttl c = ttl_in \<and> rvalue_of c \<in> set pool
      then (case partition_records ttl_in cs (remove1 (rvalue_of c) pool) of
              (ok, toReplace, pool') \<Rightarrow> (c # ok, toReplace, pool'))
      else (case partition_records ttl_in cs pool of
              (ok, toReplace, pool') \<Rightarrow> (ok, c # toReplace, pool')))"

section \<open>Example inputs\<close>

text \<open>
  The two builtins on plain ASCII text, for the examples. \<open>ascii_int\<close> reads an
  optional sign followed by one to 4300 ASCII digits, which is what \<^verbatim>\<open>int\<close>
  returns on such a text; on any other text it gives \<open>None\<close>, although
  \<^verbatim>\<open>int\<close> accepts some of them (surrounding whitespace, underscores between
  digits, other decimal digits of Unicode). \<open>ascii_lower\<close> maps the letters A to Z
  and is \<^verbatim>\<open>lower\<close> on ASCII text. The examples use them only on ASCII texts on
  which they agree with Python.
\<close>

definition is_digit :: "char \<Rightarrow> bool" where
  "is_digit c = (48 \<le> (of_char c :: nat) \<and> (of_char c :: nat) \<le> 57)"

definition digit_val :: "char \<Rightarrow> int" where
  "digit_val c = int (of_char c) - 48"

definition digits_ok :: "string \<Rightarrow> bool" where
  "digits_ok s = (s \<noteq> [] \<and> length s \<le> 4300 \<and> list_all is_digit s)"

definition digits_value :: "string \<Rightarrow> int" where
  "digits_value s = foldl (\<lambda>n c. 10 * n + digit_val c) 0 s"

definition ascii_int :: "string \<Rightarrow> int option" where
  "ascii_int s =
     (case s of
        [] \<Rightarrow> None
      | c # r \<Rightarrow>
          if c = CHR ''-'' then (if digits_ok r then Some (- digits_value r) else None)
          else if c = CHR ''+'' then (if digits_ok r then Some (digits_value r) else None)
          else if digits_ok (c # r) then Some (digits_value (c # r)) else None)"

definition lower_char :: "char \<Rightarrow> char" where
  "lower_char c =
     (if 65 \<le> (of_char c :: nat) \<and> (of_char c :: nat) \<le> 90
      then char_of ((of_char c :: nat) + 32) else c)"

definition ascii_lower :: "string \<Rightarrow> string" where
  "ascii_lower s = map lower_char s"

definition ascii_python :: python where
  "ascii_python = \<lparr>py_int = ascii_int, py_lower = ascii_lower\<rparr>"

definition api_ns :: string where
  "api_ns = ''https://ns1.hosttech.eu/public/api''"

definition return_int :: "string \<Rightarrow> element" where
  "return_int s =
     Element (None, ''return'') [(''xsd'', NAMESPACE_XSD), (''xsi'', NAMESPACE_XSI)]
       [((Some NAMESPACE_XSI, ''type''), ''xsd:int'')] (Some s) []"

definition body_twice :: element where
  "body_twice =
     Element (Some main_ns, ''Body'') [] [] None
       [Element (Some api_ns, ''getNumberOfZonesResponse'') [] [] None [return_int ''1''],
        Element (Some api_ns, ''getNumberOfZonesResponse'') [] [] None [return_int ''2'']]"

definition response_twice :: element where
  "response_twice = Element (Some main_ns, ''Envelope'') [] [] None [body_twice]"

definition fault_element :: element where
  "fault_element =
     Element (Some main_ns, ''Fault'') [(''SOAP-ENV'', main_ns)] [] None
       [Element (None, ''faultcode'') [(''SOAP-ENV'', main_ns)] [] (Some ''SOAP-ENV:Client'') [],
        Element (None, ''faultstring'') [(''SOAP-ENV'', main_ns)] [] (Some ''zone not found'') []]"

definition response_fault :: element where
  "response_fault =
     Element (Some main_ns, ''Envelope'') [(''SOAP-ENV'', main_ns)] [] None
       [Element (Some main_ns, ''Body'') [(''SOAP-ENV'', main_ns)] [] None
          [Element (Some ''urn:other'', ''unexpected'') [] [] None [],
           Element (Some api_ns, ''getNumberOfZonesResponse'') [] [] None [return_int ''1''],
           fault_element]]"

text \<open>An element of type \<^verbatim>\<open>xsd:int\<close>, as the encoder makes it from a new element.\<close>

definition int_element :: "string \<Rightarrow> string \<Rightarrow> element" where
  "int_element t s =
     Element (None, t) [(''xs'', NAMESPACE_XSD), (''xsi'', NAMESPACE_XSI)]
       [((Some NAMESPACE_XSI, ''type''), ''xs:int'')] (Some s) []"

definition ex_record :: DNSRecord where
  "ex_record = \<lparr>rec_id = Some 1, rec_zone = Some 7, rec_type = Some ''A'', rec_prefix = None,
      rec_target = Some ''1.1.1.1'', rec_ttl = 3600, rec_priority = None\<rparr>"

definition ex_record2 :: DNSRecord where
  "ex_record2 = \<lparr>rec_id = Some 2, rec_zone = Some 7, rec_type = Some ''A'', rec_prefix = None,
      rec_target = Some ''2.2.2.2'', rec_ttl = 3600, rec_priority = None\<rparr>"

definition ex_record3 :: DNSRecord where
  "ex_record3 = \<lparr>rec_id = Some 3, rec_zone = Some 7, rec_type = Some ''A'', rec_prefix = None,
      rec_target = Some ''3.3.3.3'', rec_ttl = 300, rec_priority = None\<rparr>"

section \<open>The comparison refines the matching step of the design\<close>

lemma compare_records_partition:
  "compare_records ttl_in rs (mm, mis, vs) =
     (case partition_records ttl_in rs vs of
        (ok, ms, vs') \<Rightarrow> (mm \<or> ms \<noteq> [], mis @ ms, vs'))"
  by (induction rs arbitrary: mm mis vs) (auto simp: rvalue_of_def Let_def split: prod.splits)

lemma compare_partition:
  "compare ttl_in rs vs =
     (case partition_records ttl_in rs vs of
        (ok, ms, vs') \<Rightarrow> (ms \<noteq> [] \<or> vs' \<noteq> [], ms, vs'))"
  by (auto simp: compare_def compare_records_partition split: prod.splits)

lemma add_mset_remove1: "x \<in> set vs \<Longrightarrow> add_mset x (mset (remove1 x vs)) = mset vs"
  by simp

lemma partition_records_mset:
  "partition_records ttl_in rs vs = (ok, ms, vs') \<Longrightarrow>
     mset rs = mset ok + mset ms \<and> (\<forall>r \<in> set ok. rec_ttl r = ttl_in) \<and>
     mset vs = image_mset rvalue_of (mset ok) + mset vs'"
proof (induction rs arbitrary: vs ok ms vs')
  case Nil
  then show ?case by simp
next
  case (Cons c cs)
  show ?case
  proof (cases "rec_ttl c = ttl_in \<and> rvalue_of c \<in> set vs")
    case True
    then obtain ok0 where p: "partition_records ttl_in cs (remove1 (rvalue_of c) vs) = (ok0, ms, vs')"
      and ok: "ok = c # ok0"
      using Cons.prems by (auto split: prod.splits)
    from Cons.IH [OF p] have m: "mset cs = mset ok0 + mset ms"
      and t: "\<forall>r \<in> set ok0. rec_ttl r = ttl_in"
      and v: "mset (remove1 (rvalue_of c) vs) = image_mset rvalue_of (mset ok0) + mset vs'"
      by blast+
    have "mset vs = add_mset (rvalue_of c) (mset (remove1 (rvalue_of c) vs))"
      using True add_mset_remove1 [of "rvalue_of c" vs] by simp
    then have "mset vs = image_mset rvalue_of (mset ok) + mset vs'"
      unfolding v ok by simp
    moreover have "mset (c # cs) = mset ok + mset ms"
      unfolding ok using m by simp
    moreover have "\<forall>r \<in> set ok. rec_ttl r = ttl_in"
      unfolding ok using t True by simp
    ultimately show ?thesis by blast
  next
    case False
    then obtain ms0 where p: "partition_records ttl_in cs vs = (ok, ms0, vs')"
      and ms: "ms = c # ms0"
      using Cons.prems by (auto split: prod.splits)
    from Cons.IH [OF p] ms show ?thesis by simp
  qed
qed

lemma partition_records_exact:
  "(\<forall>r \<in> set rs. rec_ttl r = ttl_in) \<Longrightarrow> mset (map rvalue_of rs) = mset vs \<Longrightarrow>
     partition_records ttl_in rs vs = (rs, [], [])"
proof (induction rs arbitrary: vs)
  case Nil
  then show ?case by simp
next
  case (Cons c cs)
  have "rvalue_of c \<in># mset (map rvalue_of (c # cs))" by simp
  then have mem: "rvalue_of c \<in> set vs"
    unfolding Cons.prems(2) by simp
  have "mset (remove1 (rvalue_of c) vs) = mset (map rvalue_of (c # cs)) - {#rvalue_of c#}"
    unfolding Cons.prems(2) by simp
  then have "mset (map rvalue_of cs) = mset (remove1 (rvalue_of c) vs)"
    by simp
  with Cons.IH [of "remove1 (rvalue_of c) vs"] Cons.prems(1) mem show ?case
    by simp
qed

lemma compare_exact:
  "exact_match ttl_in rs vs \<Longrightarrow> compare ttl_in rs vs = (False, [], [])"
  by (simp add: exact_match_def compare_partition partition_records_exact list_all_iff)

lemma compare_mismatch_iff:
  "fst (compare ttl_in rs vs) = (\<not> exact_match ttl_in rs vs)"
proof (cases "exact_match ttl_in rs vs")
  case True
  then show ?thesis by (simp add: compare_exact)
next
  case False
  obtain ok ms vs' where p: "partition_records ttl_in rs vs = (ok, ms, vs')"
    by (metis prod_cases3)
  have "ms \<noteq> [] \<or> vs' \<noteq> []"
  proof (rule ccontr)
    assume "\<not> (ms \<noteq> [] \<or> vs' \<noteq> [])"
    with partition_records_mset [OF p]
    have m: "mset rs = mset ok" and t: "\<forall>r \<in> set ok. rec_ttl r = ttl_in"
      and v: "mset vs = image_mset rvalue_of (mset ok)" by auto
    from m have "set rs = set ok" by (metis set_mset_mset)
    with t m v have "exact_match ttl_in rs vs"
      by (simp add: exact_match_def list_all_iff)
    with False show False by simp
  qed
  with p False show ?thesis by (simp add: compare_partition)
qed

lemma compare_cases:
  obtains mis rest where "compare ttl_in rs vs = (\<not> exact_match ttl_in rs vs, mis, rest)"
proof -
  obtain mm mis rest where c: "compare ttl_in rs vs = (mm, mis, rest)"
    by (rule prod_cases3)
  with compare_mismatch_iff [of ttl_in rs vs] have "mm = (\<not> exact_match ttl_in rs vs)"
    by simp
  with c that show thesis by simp
qed


section \<open>The absent policy\<close>

text \<open>
  Claim C5. Under the absent policy, when the candidate records match the desired
  state exactly (every candidate has the desired ttl, and the pairs of the candidates
  are the desired pairs as multisets), every candidate is in \<open>to_delete\<close> and a
  delete call is made for each; on any mismatch there is no action of any kind and no
  call.
\<close>

theorem absent_deletes_all_on_exact_match:
  "reconcile Absent overwrite prefix type_in ttl_in records values =
     Inr (if exact_match ttl_in records values
          then \<lparr>to_create = [], to_delete = records, to_change = []\<rparr>
          else no_actions)
   \<and> calls_of zone_in (projr (reconcile Absent overwrite prefix type_in ttl_in records values)) =
       (if exact_match ttl_in records values then map DeleteRecord records else [])"
proof -
  obtain mis rest where c: "compare ttl_in records values = (\<not> exact_match ttl_in records values, mis, rest)"
    by (rule compare_cases)
  then show ?thesis
    by (simp add: reconcile_def determine_actions_def determine_absent_def no_actions_def calls_of_def)
qed


theorem absent_deletes_all_on_exact_match_witness:
  "reconcile Absent None None ''A'' 3600
     [DNSRecord_init\<lparr>rec_id := Some 1, rec_ttl := 3600, rec_target := Some ''1.1.1.1''\<rparr>,
      DNSRecord_init\<lparr>rec_id := Some 2, rec_ttl := 3600, rec_target := Some ''2.2.2.2''\<rparr>]
     [(None, Some ''2.2.2.2''), (None, Some ''1.1.1.1'')]
   = Inr \<lparr>to_create = [],
          to_delete =
            [DNSRecord_init\<lparr>rec_id := Some 1, rec_ttl := 3600, rec_target := Some ''1.1.1.1''\<rparr>,
             DNSRecord_init\<lparr>rec_id := Some 2, rec_ttl := 3600, rec_target := Some ''2.2.2.2''\<rparr>],
          to_change = []\<rparr>
   \<and> reconcile Absent None None ''A'' 3600
     [DNSRecord_init\<lparr>rec_id := Some 1, rec_ttl := 3600, rec_target := Some ''1.1.1.1''\<rparr>,
      DNSRecord_init\<lparr>rec_id := Some 2, rec_ttl := 3600, rec_target := Some ''2.2.2.2''\<rparr>]
     [(None, Some ''1.1.1.1'')]
   = Inr no_actions"
proof -
  let ?r1 = "DNSRecord_init\<lparr>rec_id := Some 1, rec_ttl := 3600, rec_target := Some ''1.1.1.1''\<rparr>"
  let ?r2 = "DNSRecord_init\<lparr>rec_id := Some 2, rec_ttl := 3600, rec_target := Some ''2.2.2.2''\<rparr>"
  have e1: "exact_match 3600 [?r1, ?r2] [(None, Some ''2.2.2.2''), (None, Some ''1.1.1.1'')]"
    by (simp add: exact_match_def rvalue_of_def DNSRecord_init_def)
  have e2: "\<not> exact_match 3600 [?r1, ?r2] [(None, Some ''1.1.1.1'')]"
    by (simp add: exact_match_def rvalue_of_def DNSRecord_init_def)
  show ?thesis
    using absent_deletes_all_on_exact_match [of None None "''A''" 3600 "[?r1, ?r2]"
        "[(None, Some ''2.2.2.2''), (None, Some ''1.1.1.1'')]" "''example.com''"]
      absent_deletes_all_on_exact_match [of None None "''A''" 3600 "[?r1, ?r2]"
        "[(None, Some ''1.1.1.1'')]" "''example.com''"] e1 e2
    by simp
qed

section \<open>The present policy\<close>

lemma assign_values_closed:
  "assign_values prefix type_in ttl_in vs a =
     \<lparr>to_create = to_create a @
        map (\<lambda>v. set_fields prefix type_in ttl_in v DNSRecord_init) (drop (length (to_delete a)) vs),
      to_delete = take (length (to_delete a) - length vs) (to_delete a),
      to_change = to_change a @
        map (\<lambda>(record, v). set_fields prefix type_in ttl_in v record) (zip (rev (to_delete a)) vs)\<rparr>"
proof (induction vs arbitrary: a)
  case Nil
  then show ?case by simp
next
  case (Cons v vs)
  show ?case
  proof (cases "to_delete a" rule: rev_cases)
    case Nil
    with Cons.IH [of "a\<lparr>to_create := to_create a @ [set_fields prefix type_in ttl_in v DNSRecord_init]\<rparr>"]
    show ?thesis by simp
  next
    case (snoc ds d)
    with Cons.IH [of "a\<lparr>to_delete := butlast (to_delete a),
                to_change := to_change a @ [set_fields prefix type_in ttl_in v (last (to_delete a))]\<rparr>"]
    show ?thesis by simp
  qed
qed

lemma compare_no_mismatch:
  "compare ttl_in rs vs = (False, mis, rest) \<Longrightarrow> mis = [] \<and> rest = []"
  by (auto simp: compare_partition split: prod.splits)

lemma compare_no_records:
  "compare ttl_in [] vs = (mm, mis, rest) \<Longrightarrow> mis = [] \<and> rest = vs"
  by (auto simp: compare_partition)

lemma reconcile_present:
  assumes c: "compare ttl_in rs vs = (mm, mis, rest)"
  shows "reconcile Present ow prefix type_in ttl_in rs vs =
    (if rs \<noteq> [] \<and> mm \<and> ow \<noteq> Some True then Inl (FailJson already_exists)
     else Inr \<lparr>to_create =
                 map (\<lambda>v. set_fields prefix type_in ttl_in v DNSRecord_init) (drop (length mis) rest),
               to_delete = take (length mis - length rest) mis,
               to_change =
                 map (\<lambda>(record, v). set_fields prefix type_in ttl_in v record) (zip (rev mis) rest)\<rparr>)"
proof (cases "rs \<noteq> [] \<and> mm")
  case True
  with c show ?thesis
    by (simp add: reconcile_def determine_actions_def determine_present_def no_actions_def
        assign_values_closed)
next
  case False
  with c have "mis = []"
    using compare_no_mismatch [of ttl_in rs vs mis rest] compare_no_records [of ttl_in vs mm mis rest]
    by (cases mm) auto
  with c False show ?thesis
    by (auto simp add: reconcile_def determine_actions_def determine_present_def no_actions_def
        assign_values_closed)
qed


lemma rvalue_of_set_fields [simp]: "rvalue_of (set_fields prefix type_in ttl_in v r) = v"
  by (simp add: rvalue_of_def set_fields_def)

lemma rec_id_set_fields [simp]: "rec_id (set_fields prefix type_in ttl_in v r) = rec_id r"
  by (simp add: set_fields_def)

lemma fields_set_fields [simp]:
  "rec_ttl (set_fields prefix type_in ttl_in v r) = ttl_in"
  "rec_prefix (set_fields prefix type_in ttl_in v r) = prefix"
  "rec_type (set_fields prefix type_in ttl_in v r) = Some type_in"
  by (simp_all add: set_fields_def)

lemma mset_take_rev_take:
  "mset (take m (rev xs)) + mset (take (length xs - m) xs) = mset xs"
proof -
  have "mset (take m (rev xs)) = mset (drop (length xs - m) xs)"
    by (simp add: take_rev)
  moreover have "mset (drop (length xs - m) xs) + mset (take (length xs - m) xs) = mset xs"
    by (metis add.commute append_take_drop_id mset_append)
  ultimately show ?thesis by simp
qed

lemma map_zip_left: "map (\<lambda>p. f (fst p)) (zip xs ys) = map f (take (length ys) xs)"
  by (induction xs ys rule: list_induct2') simp_all

lemma map_zip_right: "map (\<lambda>p. g (snd p)) (zip xs ys) = map g (take (length xs) ys)"
  by (induction xs ys rule: list_induct2') simp_all

text \<open>
  Claim C3, as amended. Under the present policy, when overwrite is not set, at least
  one candidate record exists and the candidates mismatch the desired state, the
  reconciliation fails with the conflict error and computes no actions, and the run
  ends with \<^verbatim>\<open>fail_json\<close> ("Record already exists with different value") after
  an empty list of calls: no delete, update or create is issued and no remote call is
  made. The theorem after the witness is the counterexample to the claim as stated: in
  that run there is no candidate record, its one desired pair is left unmatched, which
  is a mismatch, and the run creates the record instead of failing.
\<close>

theorem present_mismatch_without_overwrite_fails:
  assumes "p_state p = Present"
    and "parse_records py (p_type p) (p_value p) [] = Inr values"
    and "records = find_matching_records (p_prefix p) (p_type p) zone_records"
    and "records \<noteq> []"
    and "\<not> exact_match (p_ttl p) records values"
    and "p_overwrite p \<noteq> Some True"
  shows "reconcile Present (p_overwrite p) (p_prefix p) (p_type p) (p_ttl p) records values
           = Inl (FailJson already_exists)
       \<and> run_module py p zone_records = (FailJson already_exists, [])"
proof -
  obtain mis rest where c: "compare (p_ttl p) records values = (True, mis, rest)"
    using assms(5) compare_cases [of "p_ttl p" records "values"] by metis
  have r: "reconcile Present (p_overwrite p) (p_prefix p) (p_type p) (p_ttl p) records values
           = Inl (FailJson already_exists)"
    using reconcile_present [OF c, of "p_overwrite p" "p_prefix p" "p_type p"] assms(4) assms(6) by simp
  from r assms(1,2,3) have "run_module py p zone_records = (FailJson already_exists, [])"
    by (simp add: run_module_def)
  with r show ?thesis by simp
qed

theorem present_mismatch_without_overwrite_fails_witness:
  "run_module ascii_python \<lparr>p_state = Present, p_zone_in = ''example.com'', p_record_in = ''example.com'',
       p_prefix = None, p_type = ''A'', p_ttl = 7200, p_value = [''1.1.1.1''],
       p_overwrite = Some False, p_check_mode = False\<rparr> [ex_record]
     = (FailJson already_exists, [])"
proof -
  let ?p = "\<lparr>p_state = Present, p_zone_in = ''example.com'', p_record_in = ''example.com'',
       p_prefix = None, p_type = ''A'', p_ttl = 7200, p_value = [''1.1.1.1''],
       p_overwrite = Some False, p_check_mode = False\<rparr>"
  have 1: "parse_records ascii_python (p_type ?p) (p_value ?p) [] = Inr [(None, Some ''1.1.1.1'')]"
    by simp
  have 2: "[ex_record] = find_matching_records (p_prefix ?p) (p_type ?p) [ex_record]"
    by (simp add: find_matching_records_def ex_record_def)
  have 3: "\<not> exact_match (p_ttl ?p) [ex_record] [(None, Some ''1.1.1.1'')]"
    by (simp add: exact_match_def ex_record_def)
  show ?thesis
    using present_mismatch_without_overwrite_fails
            [of ?p ascii_python "[(None, Some ''1.1.1.1'')]" "[ex_record]" "[ex_record]", OF _ 1 2 _ 3]
    by simp
qed

theorem present_mismatch_without_records_creates:
  "\<not> exact_match 3600 [] [(None, Some ''1.1.1.1'')]
   \<and> fst (compare 3600 [] [(None, Some ''1.1.1.1'')])
   \<and> reconcile Present (Some False) None ''A'' 3600 [] [(None, Some ''1.1.1.1'')]
       = Inr \<lparr>to_create = [DNSRecord_init\<lparr>rec_type := Some ''A'', rec_target := Some ''1.1.1.1'',
                               rec_ttl := 3600\<rparr>],
              to_delete = [], to_change = []\<rparr>
   \<and> run_module ascii_python \<lparr>p_state = Present, p_zone_in = ''example.com'', p_record_in = ''example.com'',
       p_prefix = None, p_type = ''A'', p_ttl = 3600, p_value = [''1.1.1.1''],
       p_overwrite = Some False, p_check_mode = False\<rparr> []
       = (ExitJson True,
          [AddRecord ''example.com''
             (DNSRecord_init\<lparr>rec_type := Some ''A'', rec_target := Some ''1.1.1.1'',
                rec_ttl := 3600\<rparr>)])"
proof -
  have 1: "\<not> exact_match 3600 [] [(None, Some ''1.1.1.1'')]"
    by (simp add: exact_match_def)
  have 2: "compare 3600 [] [(None, Some ''1.1.1.1'')] = (True, [], [(None, Some ''1.1.1.1'')])"
    by (simp add: compare_def)
  have 3: "reconcile Present (Some False) None ''A'' 3600 [] [(None, Some ''1.1.1.1'')]
       = Inr \<lparr>to_create = [DNSRecord_init\<lparr>rec_type := Some ''A'', rec_target := Some ''1.1.1.1'',
                               rec_ttl := 3600\<rparr>],
              to_delete = [], to_change = []\<rparr>"
    by (simp add: reconcile_def 2 determine_actions_def determine_present_def no_actions_def
        set_fields_def DNSRecord_init_def)
  have 4: "run_module ascii_python \<lparr>p_state = Present, p_zone_in = ''example.com'', p_record_in = ''example.com'',
       p_prefix = None, p_type = ''A'', p_ttl = 3600, p_value = [''1.1.1.1''],
       p_overwrite = Some False, p_check_mode = False\<rparr> []
       = (ExitJson True,
          [AddRecord ''example.com''
             (DNSRecord_init\<lparr>rec_type := Some ''A'', rec_target := Some ''1.1.1.1'',
                rec_ttl := 3600\<rparr>)])"
    by (simp add: run_module_def find_matching_records_def 3 calls_of_def)
  from 1 2 3 4 show ?thesis by simp
qed

text \<open>
  Claim C4. Under the present policy with overwrite set, each leftover desired pair
  takes one mismatched candidate, which is changed; the number of changes is the
  minimum of the two counts, the mismatched candidates that are left are deleted, the
  desired pairs that are left are created, every mismatched candidate is either
  changed or deleted, every leftover pair is carried by exactly one changed or created
  record, and every changed or created record has the desired ttl, prefix and type.
  For one candidate with ttl 3600 and target 1.1.1.1 and the desired ttl 7200 with the
  one value 2.2.2.2 the result is one change and nothing else.
\<close>

theorem present_overwrite_updates_then_deletes_or_creates:
  assumes "compare ttl_in records values = (mismatch, mismatch_records, rest)"
  shows "(\<exists>a. reconcile Present (Some True) prefix type_in ttl_in records values = Inr a
      \<and> length (to_change a) = min (length mismatch_records) (length rest)
      \<and> length (to_delete a) = length mismatch_records - length rest
      \<and> length (to_create a) = length rest - length mismatch_records
      \<and> mset (map rec_id (to_change a)) + mset (map rec_id (to_delete a))
          = mset (map rec_id mismatch_records)
      \<and> mset (to_delete a) \<subseteq># mset mismatch_records
      \<and> mset (map rvalue_of (to_change a)) + mset (map rvalue_of (to_create a)) = mset rest
      \<and> list_all (\<lambda>r. rec_ttl r = ttl_in \<and> rec_prefix r = prefix \<and> rec_type r = Some type_in)
           (to_change a @ to_create a))
    \<and> reconcile Present (Some True) None ''A'' 7200 [ex_record] [(None, Some ''2.2.2.2'')]
       = Inr \<lparr>to_create = [], to_delete = [],
              to_change = [ex_record\<lparr>rec_ttl := 7200, rec_target := Some ''2.2.2.2''\<rparr>]\<rparr>"
proof -
  let ?n = "length mismatch_records" and ?m = "length rest"
  let ?a = "\<lparr>to_create =
                 map (\<lambda>v. set_fields prefix type_in ttl_in v DNSRecord_init) (drop ?n rest),
               to_delete = take (?n - ?m) mismatch_records,
               to_change =
                 map (\<lambda>(record, v). set_fields prefix type_in ttl_in v record)
                   (zip (rev mismatch_records) rest)\<rparr>"
  have r: "reconcile Present (Some True) prefix type_in ttl_in records values = Inr ?a"
    using reconcile_present [OF assms, of "Some True" prefix type_in] by simp
  have ch: "map rec_id (to_change ?a) = map rec_id (take ?m (rev mismatch_records))"
    using map_zip_left [of rec_id "rev mismatch_records" rest]
    by (simp add: case_prod_unfold comp_def)
  have "mset (map rec_id (to_change ?a)) + mset (map rec_id (to_delete ?a))
          = image_mset rec_id (mset (take ?m (rev mismatch_records))
              + mset (take (?n - ?m) mismatch_records))"
    unfolding ch by simp
  then have ids: "mset (map rec_id (to_change ?a)) + mset (map rec_id (to_delete ?a))
          = mset (map rec_id mismatch_records)"
    unfolding mset_take_rev_take by simp
  have del: "mset (to_delete ?a) \<subseteq># mset mismatch_records"
    using mset_take_rev_take [of ?m mismatch_records] by (simp add: mset_subset_eq_exists_conv) (metis add.commute)
  have chv: "map rvalue_of (to_change ?a) = take ?n rest"
    using map_zip_right [of "\<lambda>v. v" "rev mismatch_records" rest]
    by (simp add: case_prod_unfold comp_def)
  have crv: "map rvalue_of (to_create ?a) = drop ?n rest"
    by (simp add: comp_def)
  have vals: "mset (map rvalue_of (to_change ?a)) + mset (map rvalue_of (to_create ?a)) = mset rest"
    unfolding chv crv by (metis append_take_drop_id mset_append)
  have fields: "list_all (\<lambda>r. rec_ttl r = ttl_in \<and> rec_prefix r = prefix \<and> rec_type r = Some type_in)
           (to_change ?a @ to_create ?a)"
    by (auto simp add: list_all_iff)
  have len: "length (to_change ?a) = min ?n ?m" "length (to_delete ?a) = ?n - ?m"
    "length (to_create ?a) = ?m - ?n"
    by simp_all
  from r len ids del vals fields
  have general: "\<exists>a. reconcile Present (Some True) prefix type_in ttl_in records values = Inr a
      \<and> length (to_change a) = min (length mismatch_records) (length rest)
      \<and> length (to_delete a) = length mismatch_records - length rest
      \<and> length (to_create a) = length rest - length mismatch_records
      \<and> mset (map rec_id (to_change a)) + mset (map rec_id (to_delete a))
          = mset (map rec_id mismatch_records)
      \<and> mset (to_delete a) \<subseteq># mset mismatch_records
      \<and> mset (map rvalue_of (to_change a)) + mset (map rvalue_of (to_create a)) = mset rest
      \<and> list_all (\<lambda>r. rec_ttl r = ttl_in \<and> rec_prefix r = prefix \<and> rec_type r = Some type_in)
           (to_change a @ to_create a)"
    by blast
  have c: "compare 7200 [ex_record] [(None, Some ''2.2.2.2'')]
             = (True, [ex_record], [(None, Some ''2.2.2.2'')])"
    by (simp add: compare_def ex_record_def)
  have "reconcile Present (Some True) None ''A'' 7200 [ex_record] [(None, Some ''2.2.2.2'')]
       = Inr \<lparr>to_create = [], to_delete = [],
              to_change = [ex_record\<lparr>rec_ttl := 7200, rec_target := Some ''2.2.2.2''\<rparr>]\<rparr>"
    using reconcile_present [OF c, of "Some True" None "''A''"]
    by (simp add: set_fields_def ex_record_def)
  with general show ?thesis by blast
qed

lemma compare_example:
  "compare 7200 [ex_record] [(None, Some ''2.2.2.2'')]
     = (True, [ex_record], [(None, Some ''2.2.2.2'')])"
  by (simp add: compare_def ex_record_def)

theorem present_overwrite_updates_then_deletes_or_creates_witness:
  "\<exists>a. reconcile Present (Some True) None ''A'' 7200 [ex_record] [(None, Some ''2.2.2.2'')] = Inr a
      \<and> length (to_change a) = 1 \<and> length (to_delete a) = 0 \<and> length (to_create a) = 0"
proof -
  from present_overwrite_updates_then_deletes_or_creates [OF compare_example, of None "''A''"]
  have "\<exists>a. reconcile Present (Some True) None ''A'' 7200 [ex_record] [(None, Some ''2.2.2.2'')] = Inr a
      \<and> length (to_change a) = min (length [ex_record]) (length [(None :: int option, Some ''2.2.2.2'')])
      \<and> length (to_delete a) = length [ex_record] - length [(None :: int option, Some ''2.2.2.2'')]
      \<and> length (to_create a) = length [(None :: int option, Some ''2.2.2.2'')] - length [ex_record]"
    by blast
  then show ?thesis by simp
qed

text \<open>
  Claim C9. Under the present policy with overwrite set, the mismatched candidates are
  taken from the end of their list, which is in input order: the \<open>i\<close>-th leftover
  desired pair is written into the \<open>i\<close>-th mismatched candidate counted from the
  end, and the candidates deleted are the first ones of the list.
\<close>

theorem present_overwrite_pops_last_mismatched_first:
  assumes "compare ttl_in records values = (mismatch, mismatch_records, rest)"
  shows "\<exists>a. reconcile Present (Some True) prefix type_in ttl_in records values = Inr a
      \<and> mismatch_records = fst (snd (partition_records ttl_in records values))
      \<and> to_delete a = take (length mismatch_records - length rest) mismatch_records
      \<and> length (to_change a) = min (length mismatch_records) (length rest)
      \<and> (\<forall>i < length (to_change a).
            to_change a ! i =
              set_fields prefix type_in ttl_in (rest ! i)
                (mismatch_records ! (length mismatch_records - 1 - i)))"
proof -
  let ?n = "length mismatch_records" and ?m = "length rest"
  let ?a = "\<lparr>to_create =
                 map (\<lambda>v. set_fields prefix type_in ttl_in v DNSRecord_init) (drop ?n rest),
               to_delete = take (?n - ?m) mismatch_records,
               to_change =
                 map (\<lambda>(record, v). set_fields prefix type_in ttl_in v record)
                   (zip (rev mismatch_records) rest)\<rparr>"
  have r: "reconcile Present (Some True) prefix type_in ttl_in records values = Inr ?a"
    using reconcile_present [OF assms, of "Some True" prefix type_in] by simp
  have p: "mismatch_records = fst (snd (partition_records ttl_in records values))"
    using assms by (simp add: compare_partition split: prod.splits)
  have nth: "\<forall>i < length (to_change ?a).
            to_change ?a ! i =
              set_fields prefix type_in ttl_in (rest ! i) (mismatch_records ! (?n - 1 - i))"
    by (simp add: rev_nth)
  have "to_delete ?a = take (?n - ?m) mismatch_records" "length (to_change ?a) = min ?n ?m"
    by simp_all
  with r p nth show ?thesis by blast
qed

lemma compare_example3:
  "compare 7200 [ex_record, ex_record2, ex_record3] [(None, Some ''9.9.9.9'')]
     = (True, [ex_record, ex_record2, ex_record3], [(None, Some ''9.9.9.9'')])"
  by (simp add: compare_def ex_record_def ex_record2_def ex_record3_def)

theorem present_overwrite_pops_last_mismatched_first_witness:
  "\<exists>a. reconcile Present (Some True) None ''A'' 7200 [ex_record, ex_record2, ex_record3]
          [(None, Some ''9.9.9.9'')] = Inr a
      \<and> to_delete a = [ex_record, ex_record2]
      \<and> length (to_change a) = 1
      \<and> to_change a ! 0 = ex_record3\<lparr>rec_ttl := 7200, rec_target := Some ''9.9.9.9''\<rparr>"
proof -
  from present_overwrite_pops_last_mismatched_first [OF compare_example3, of None "''A''"]
  obtain a where a: "reconcile Present (Some True) None ''A'' 7200
        [ex_record, ex_record2, ex_record3] [(None, Some ''9.9.9.9'')] = Inr a"
    and d: "to_delete a =
              take (length [ex_record, ex_record2, ex_record3]
                    - length [(None :: int option, Some ''9.9.9.9'')])
                [ex_record, ex_record2, ex_record3]"
    and l: "length (to_change a) =
              min (length [ex_record, ex_record2, ex_record3])
                (length [(None :: int option, Some ''9.9.9.9'')])"
    and n: "\<forall>i < length (to_change a). to_change a ! i =
              set_fields None ''A'' 7200 ([(None, Some ''9.9.9.9'')] ! i)
                ([ex_record, ex_record2, ex_record3] !
                   (length [ex_record, ex_record2, ex_record3] - 1 - i))"
    by blast
  from n l have "to_change a ! 0 = set_fields None ''A'' 7200 (None, Some ''9.9.9.9'') ex_record3"
    by simp
  then have "to_change a ! 0 = ex_record3\<lparr>rec_ttl := 7200, rec_target := Some ''9.9.9.9''\<rparr>"
    by (simp add: set_fields_def ex_record3_def)
  moreover from d have "to_delete a = [ex_record, ex_record2]" by simp
  moreover from l have "length (to_change a) = 1" by simp
  ultimately show ?thesis using a by blast
qed

section \<open>Applying the actions on the remote service\<close>

lemma filter_other_ids:
  "rec_id d \<notin> rec_id ` set S \<Longrightarrow> filter (\<lambda>r. rec_id r \<noteq> rec_id d) S = S"
  by (induction S) auto

lemma remote_delete_mset:
  "distinct (map rec_id S) \<Longrightarrow> d \<in> set S \<Longrightarrow>
     mset (remote (DeleteRecord d) S) = mset S - {#d#}"
proof (induction S)
  case Nil
  then show ?case by simp
next
  case (Cons x S)
  show ?case
  proof (cases "x = d")
    case True
    with Cons.prems have "rec_id d \<notin> rec_id ` set S" by simp
    with True show ?thesis by (simp add: filter_other_ids)
  next
    case False
    with Cons.prems have d: "d \<in> set S" and ne: "rec_id x \<noteq> rec_id d"
      by auto
    with Cons.IH Cons.prems have "mset (remote (DeleteRecord d) S) = mset S - {#d#}"
      by simp
    with d ne False show ?thesis by simp
  qed
qed

lemma remote_delete_distinct:
  "distinct (map rec_id S) \<Longrightarrow> distinct (map rec_id (remote (DeleteRecord d) S))"
  by (simp add: distinct_map_filter)

lemma fold_delete_mset:
  "distinct (map rec_id S) \<Longrightarrow> mset ds \<subseteq># mset S \<Longrightarrow>
     mset (fold remote (map DeleteRecord ds) S) = mset S - mset ds
     \<and> distinct (map rec_id (fold remote (map DeleteRecord ds) S))"
proof (induction ds arbitrary: S)
  case Nil
  then show ?case by simp
next
  case (Cons d ds)
  let ?S = "remote (DeleteRecord d) S"
  from Cons.prems(2) have d: "d \<in> set S"
    by (metis insert_subset_eq_iff mset.simps(2) set_mset_mset)
  have m: "mset ?S = mset S - {#d#}"
    using remote_delete_mset [OF Cons.prems(1) d] .
  from Cons.prems(2) have "mset ds \<subseteq># mset S - {#d#}"
    by (simp add: insert_subset_eq_iff)
  then have sub: "mset ds \<subseteq># mset ?S" unfolding m .
  have dist: "distinct (map rec_id ?S)"
    using remote_delete_distinct [OF Cons.prems(1)] .
  from Cons.IH [OF dist sub]
  have "mset (fold remote (map DeleteRecord ds) ?S) = mset S - {#d#} - mset ds"
    and "distinct (map rec_id (fold remote (map DeleteRecord ds) ?S))"
    unfolding m by simp_all
  then show ?case by simp
qed

lemma remote_update_ids:
  "map rec_id (remote (UpdateRecord c) S) = map rec_id S"
  by (induction S) auto

lemma remote_update_mset:
  "distinct (map rec_id S) \<Longrightarrow> u \<in> set S \<Longrightarrow>
     mset (remote (UpdateRecord (set_fields prefix type_in ttl_in v u)) S)
       = mset S - {#u#} + {#set_fields prefix type_in ttl_in v u#}"
proof (induction S)
  case Nil
  then show ?case by simp
next
  case (Cons x S)
  let ?c = "set_fields prefix type_in ttl_in v u"
  show ?case
  proof (cases "x = u")
    case True
    with Cons.prems have "rec_id u \<notin> rec_id ` set S" by simp
    then have "remote (UpdateRecord ?c) S = S"
      by (induction S) (auto simp: set_fields_def)
    with True show ?thesis by (simp add: set_fields_def)
  next
    case False
    with Cons.prems have u: "u \<in> set S" and ne: "rec_id x \<noteq> rec_id u"
      by auto
    with Cons.IH Cons.prems
    have "mset (remote (UpdateRecord ?c) S) = mset S - {#u#} + {#?c#}"
      by simp
    with u ne False show ?thesis by (simp add: set_fields_def)
  qed
qed


lemma add_mset_diff_subset: "P \<subseteq># A \<Longrightarrow> add_mset c A - P = add_mset c (A - P)"
  by (auto simp: mset_subset_eq_exists_conv)

lemma fold_update_mset:
  "distinct (map rec_id S) \<Longrightarrow> mset (map fst ps) \<subseteq># mset S \<Longrightarrow>
     mset (fold remote
             (map (\<lambda>p. UpdateRecord (set_fields prefix type_in ttl_in (snd p) (fst p))) ps) S)
       = mset S - mset (map fst ps)
         + mset (map (\<lambda>p. set_fields prefix type_in ttl_in (snd p) (fst p)) ps)"
proof (induction ps arbitrary: S)
  case Nil
  then show ?case by simp
next
  case (Cons p ps)
  let ?c = "set_fields prefix type_in ttl_in (snd p) (fst p)"
  let ?S = "remote (UpdateRecord ?c) S"
  let ?P = "mset (map fst ps)"
  let ?N = "mset (map (\<lambda>p. set_fields prefix type_in ttl_in (snd p) (fst p)) ps)"
  from Cons.prems(2) have u: "fst p \<in> set S"
    by (metis insert_subset_eq_iff list.simps(9) mset.simps(2) set_mset_mset)
  have m: "mset ?S = mset S - {#fst p#} + {#?c#}"
    using remote_update_mset [OF Cons.prems(1) u] .
  from Cons.prems(2) have sub0: "?P \<subseteq># mset S - {#fst p#}"
    by (simp add: insert_subset_eq_iff)
  then have sub: "?P \<subseteq># mset ?S"
    unfolding m by (metis mset_subset_eq_add_left subset_mset.order_trans)
  have dist: "distinct (map rec_id ?S)"
    using Cons.prems(1) by (simp only: remote_update_ids)
  have "mset (fold remote
             (map (\<lambda>p. UpdateRecord (set_fields prefix type_in ttl_in (snd p) (fst p))) ps) ?S)
       = mset ?S - ?P + ?N"
    using Cons.IH [OF dist sub] .
  also have "mset ?S - ?P = (mset S - {#fst p#} - ?P) + {#?c#}"
    unfolding m using add_mset_diff_subset [OF sub0, of ?c] by simp
  finally show ?case by simp
qed

lemma fold_add_vals:
  "mset (map rvalue_of (fold remote (map (AddRecord z) ns) S))
     = mset (map rvalue_of S) + mset (map rvalue_of ns)
   \<and> rec_ttl ` set (fold remote (map (AddRecord z) ns) S) = rec_ttl ` set S \<union> rec_ttl ` set ns"
proof (induction ns arbitrary: S)
  case Nil
  then show ?case by simp
next
  case (Cons n ns)
  from Cons.IH [of "S @ [n\<lparr>rec_id := Some (fresh_id S)\<rparr>]"]
  show ?case by (simp add: rvalue_of_def Un_commute insert_commute)
qed

lemma map_fst_zip_rev: "map fst (zip (rev xs) ys) = take (length ys) (rev xs)"
  using map_zip_left [of "\<lambda>x. x" "rev xs" ys] by simp

lemma apply_actions_steps:
  "apply_actions z a rs =
     fold remote (map (AddRecord z) (to_create a))
       (fold remote (map UpdateRecord (to_change a))
          (fold remote (map DeleteRecord (to_delete a)) rs))"
  by (simp add: apply_actions_def calls_of_def)

lemma map_update_set_fields:
  "map UpdateRecord (map (\<lambda>(record, v). set_fields prefix type_in ttl_in v record) ps)
     = map (\<lambda>p. UpdateRecord (set_fields prefix type_in ttl_in (snd p) (fst p))) ps"
  by (induction ps) auto

lemma map_rvalue_changed:
  "map rvalue_of (map (\<lambda>(record, v). set_fields prefix type_in ttl_in v record) (zip xs vs))
     = take (length xs) vs"
  by (induction xs vs rule: list_induct2') simp_all

lemma map_rvalue_created:
  "map rvalue_of (map (\<lambda>v. set_fields prefix type_in ttl_in v DNSRecord_init) vs) = vs"
  by (induction vs) simp_all

lemma ttl_changed:
  "r \<in> set (map (\<lambda>(record, v). set_fields prefix type_in ttl_in v record) ps) \<Longrightarrow> rec_ttl r = ttl_in"
  by auto

lemma ttl_created:
  "r \<in> set (map (\<lambda>v. set_fields prefix type_in ttl_in v DNSRecord_init) vs) \<Longrightarrow> rec_ttl r = ttl_in"
  by auto


lemma apply_present_exact:
  assumes c: "compare ttl_in rs vs = (mm, mis, rest)"
    and dist: "distinct (map rec_id rs)"
  shows "exact_match ttl_in
     (apply_actions z
        \<lparr>to_create = map (\<lambda>v. set_fields prefix type_in ttl_in v DNSRecord_init)
                       (drop (length mis) rest),
         to_delete = take (length mis - length rest) mis,
         to_change = map (\<lambda>(record, v). set_fields prefix type_in ttl_in v record)
                       (zip (rev mis) rest)\<rparr> rs) vs"
proof -
  define D where "D = take (length mis - length rest) mis"
  define ps where "ps = zip (rev mis) rest"
  define C where "C = map (\<lambda>(record, v). set_fields prefix type_in ttl_in v record) ps"
  define N where "N = map (\<lambda>v. set_fields prefix type_in ttl_in v DNSRecord_init)
                       (drop (length mis) rest)"
  define S1 where "S1 = fold remote (map DeleteRecord D) rs"
  define S2 where "S2 = fold remote (map UpdateRecord C) S1"
  define S3 where "S3 = fold remote (map (AddRecord z) N) S2"
  obtain ok where p: "partition_records ttl_in rs vs = (ok, mis, rest)"
    using c by (auto simp: compare_partition split: prod.splits)
  from partition_records_mset [OF p]
  have M: "mset rs = mset ok + mset mis"
    and T: "\<forall>r \<in> set ok. rec_ttl r = ttl_in"
    and V: "mset vs = image_mset rvalue_of (mset ok) + mset rest"
    by blast+
  have DP: "mset (map fst ps) + mset D = mset mis"
    unfolding ps_def D_def map_fst_zip_rev by (rule mset_take_rev_take)
  have M': "mset rs = mset ok + (mset (map fst ps) + mset D)"
    unfolding DP by (rule M)
  have subD: "mset D \<subseteq># mset rs"
    unfolding M' by (simp del: mset_map)
  from fold_delete_mset [OF dist subD]
  have S1: "mset S1 = mset rs - mset D" and dist1: "distinct (map rec_id S1)"
    unfolding S1_def by blast+
  have S1': "mset S1 = mset ok + mset (map fst ps)"
    unfolding S1 M' by (simp del: mset_map)
  have subP: "mset (map fst ps) \<subseteq># mset S1"
    unfolding S1' by (simp del: mset_map)
  have "mset S2 = mset S1 - mset (map fst ps) + mset C"
    unfolding S2_def C_def map_update_set_fields
    using fold_update_mset [OF dist1 subP, of prefix type_in ttl_in]
    by (simp add: case_prod_unfold del: mset_map)
  then have S2: "mset S2 = mset ok + mset C"
    unfolding S1' by (simp del: mset_map)
  have ap: "apply_actions z \<lparr>to_create = N, to_delete = D, to_change = C\<rparr> rs = S3"
    unfolding apply_actions_steps S3_def S2_def S1_def by simp
  have vC: "map rvalue_of C = take (length mis) rest"
    unfolding C_def ps_def using map_rvalue_changed [of prefix type_in ttl_in "rev mis" rest]
    by simp
  have vN: "map rvalue_of N = drop (length mis) rest"
    unfolding N_def by (rule map_rvalue_created)
  have "image_mset rvalue_of (mset S2) = image_mset rvalue_of (mset ok + mset C)"
    by (simp only: S2)
  then have v2: "mset (map rvalue_of S2) = image_mset rvalue_of (mset ok) + mset (map rvalue_of C)"
    by simp
  have "mset (map rvalue_of S3) = mset (map rvalue_of S2) + mset (map rvalue_of N)"
    unfolding S3_def using fold_add_vals [of z N S2] by blast
  then have "mset (map rvalue_of S3)
      = image_mset rvalue_of (mset ok)
        + (mset (take (length mis) rest) + mset (drop (length mis) rest))"
    unfolding v2 vC vN by (simp only: add.assoc)
  also have "mset (take (length mis) rest) + mset (drop (length mis) rest) = mset rest"
    unfolding mset_append [symmetric] append_take_drop_id by (rule refl)
  finally have vals: "mset (map rvalue_of S3) = mset vs"
    unfolding V .
  have "set_mset (mset S2) = set_mset (mset ok + mset C)"
    by (simp only: S2)
  then have s2: "set S2 = set ok \<union> set C"
    by simp
  have s3: "rec_ttl ` set S3 = rec_ttl ` set S2 \<union> rec_ttl ` set N"
    unfolding S3_def using fold_add_vals [of z N S2] by blast
  have "rec_ttl r = ttl_in" if "r \<in> set S3" for r
  proof -
    from that s3 have "rec_ttl r \<in> rec_ttl ` set S2 \<union> rec_ttl ` set N" by blast
    then obtain r' where r': "r' \<in> set ok \<union> set C \<union> set N" and e: "rec_ttl r = rec_ttl r'"
      unfolding s2 by blast
    from r' have "rec_ttl r' = ttl_in"
      using T ttl_changed [of r' prefix type_in ttl_in ps] ttl_created [of r' prefix type_in ttl_in "drop (length mis) rest"]
      unfolding C_def N_def by blast
    with e show ?thesis by simp
  qed
  then have ttls: "list_all (\<lambda>record. rec_ttl record = ttl_in) S3"
    unfolding list_all_iff by blast
  have "exact_match ttl_in S3 vs"
    unfolding exact_match_def using ttls vals by blast
  then show ?thesis
    unfolding ap [symmetric] N_def D_def C_def ps_def .
qed


lemma reconcile_absent:
  "reconcile Absent overwrite prefix type_in ttl_in records values =
     Inr (if exact_match ttl_in records values
          then \<lparr>to_create = [], to_delete = records, to_change = []\<rparr>
          else no_actions)"
proof -
  obtain mis rest where "compare ttl_in records values = (\<not> exact_match ttl_in records values, mis, rest)"
    by (rule compare_cases)
  then show ?thesis
    by (simp add: reconcile_def determine_actions_def determine_absent_def no_actions_def)
qed

lemma apply_delete_all:
  assumes "distinct (map rec_id rs)"
  shows "apply_actions z \<lparr>to_create = [], to_delete = rs, to_change = []\<rparr> rs = []"
proof -
  have "mset (fold remote (map DeleteRecord rs) rs) = mset rs - mset rs"
    using fold_delete_mset [OF assms, of rs] by simp
  then show ?thesis
    by (simp add: apply_actions_def calls_of_def)
qed

lemma apply_no_actions: "apply_actions z no_actions rs = rs"
  by (simp add: apply_actions_def calls_of_def no_actions_def)

section \<open>Idempotency\<close>

text \<open>
  Claim C2. When a run computes actions for candidate records with distinct ids,
  applying them on the remote service (the deletions of \<open>to_delete\<close>, the changes
  of \<open>to_change\<close>, the creations of \<open>to_create\<close>) and running the same
  reconciliation on the resulting records gives no action at all, for every state,
  every ttl, every list of values and either setting of overwrite. A run that fails
  with \<^verbatim>\<open>fail_json\<close> computes no actions, so there is nothing to apply.
\<close>

theorem reconcile_idempotent:
  assumes r: "reconcile st overwrite prefix type_in ttl_in records values = Inr a"
    and dist: "distinct (map rec_id records)"
  shows "reconcile st overwrite prefix type_in ttl_in (apply_actions zone_in a records) values
           = Inr no_actions"
proof (cases st)
  case Get
  then have all: "\<And>rs. reconcile st overwrite prefix type_in ttl_in rs values = Inr no_actions"
    by (simp add: reconcile_def determine_actions_def split: prod.splits)
  then show ?thesis .
next
  case Absent
  show ?thesis
  proof (cases "exact_match ttl_in records values")
    case True
    with r Absent have a: "a = \<lparr>to_create = [], to_delete = records, to_change = []\<rparr>"
      by (simp add: reconcile_absent)
    have "apply_actions zone_in a records = []"
      unfolding a using apply_delete_all [OF dist] .
    then show ?thesis
      using Absent by (simp add: reconcile_absent no_actions_def)
  next
    case False
    with r Absent have "a = no_actions"
      by (simp add: reconcile_absent)
    with False Absent show ?thesis
      by (simp add: apply_no_actions reconcile_absent)
  qed
next
  case Present
  obtain mm mis rest where c: "compare ttl_in records values = (mm, mis, rest)"
    by (rule prod_cases3)
  let ?a = "\<lparr>to_create = map (\<lambda>v. set_fields prefix type_in ttl_in v DNSRecord_init)
                       (drop (length mis) rest),
         to_delete = take (length mis - length rest) mis,
         to_change = map (\<lambda>(record, v). set_fields prefix type_in ttl_in v record)
                       (zip (rev mis) rest)\<rparr>"
  from r Present reconcile_present [OF c, of overwrite prefix type_in]
  have a: "a = ?a"
    by (simp split: if_splits)
  have "exact_match ttl_in (apply_actions zone_in a records) values"
    unfolding a using apply_present_exact [OF c dist] .
  then have "compare ttl_in (apply_actions zone_in a records) values = (False, [], [])"
    by (rule compare_exact)
  from reconcile_present [OF this, of overwrite prefix type_in] Present
  show ?thesis by (simp add: no_actions_def)
qed

theorem reconcile_idempotent_witness:
  "reconcile Present (Some True) None ''A'' 7200 [ex_record, ex_record2, ex_record3]
       [(None, Some ''9.9.9.9'')]
     = Inr \<lparr>to_create = [], to_delete = [ex_record, ex_record2],
            to_change = [ex_record3\<lparr>rec_ttl := 7200, rec_target := Some ''9.9.9.9''\<rparr>]\<rparr>
   \<and> apply_actions ''example.com''
        \<lparr>to_create = [], to_delete = [ex_record, ex_record2],
          to_change = [ex_record3\<lparr>rec_ttl := 7200, rec_target := Some ''9.9.9.9''\<rparr>]\<rparr>
        [ex_record, ex_record2, ex_record3]
     = [ex_record3\<lparr>rec_ttl := 7200, rec_target := Some ''9.9.9.9''\<rparr>]
   \<and> reconcile Present (Some True) None ''A'' 7200
        [ex_record3\<lparr>rec_ttl := 7200, rec_target := Some ''9.9.9.9''\<rparr>]
        [(None, Some ''9.9.9.9'')]
     = Inr no_actions"
proof -
  let ?a = "\<lparr>to_create = [], to_delete = [ex_record, ex_record2],
          to_change = [ex_record3\<lparr>rec_ttl := 7200, rec_target := Some ''9.9.9.9''\<rparr>]\<rparr>"
  have 1: "reconcile Present (Some True) None ''A'' 7200 [ex_record, ex_record2, ex_record3]
       [(None, Some ''9.9.9.9'')] = Inr ?a"
    using reconcile_present [OF compare_example3, of "Some True" None "''A''"]
    by (simp add: set_fields_def ex_record3_def)
  have 2: "distinct (map rec_id [ex_record, ex_record2, ex_record3])"
    by (simp add: ex_record_def ex_record2_def ex_record3_def)
  have 3: "apply_actions ''example.com'' ?a [ex_record, ex_record2, ex_record3]
     = [ex_record3\<lparr>rec_ttl := 7200, rec_target := Some ''9.9.9.9''\<rparr>]"
    by (simp add: apply_actions_def calls_of_def ex_record_def ex_record2_def ex_record3_def)
  from reconcile_idempotent [OF 1 2, of "''example.com''"] 1 3 show ?thesis
    by simp
qed

section \<open>Parsing the values of MX and PTR records\<close>

lemma str_find_takeWhile:
  "str_find c s = (if c \<in> set s then Some (length (takeWhile (\<lambda>x. x \<noteq> c) s)) else None)"
  by (induction s) auto

lemma take_length_takeWhile: "take (length (takeWhile P s)) s = takeWhile P s"
  by (induction s) auto

lemma drop_Suc_length_takeWhile: "drop (Suc (length (takeWhile P s))) s = tl (dropWhile P s)"
  by (induction s) auto

lemma split_space_1_parts:
  "split_space_1 v = (if CHR '' '' \<in> set v then [priority_part v, target_part v] else [v])"
  by (simp add: split_space_1_def str_find_takeWhile priority_part_def target_part_def
      take_length_takeWhile drop_Suc_length_takeWhile)

lemma parse_records_step:
  "type_in \<in> {''PTR'', ''MX''} \<Longrightarrow>
   parse_records py type_in (v # value_in) acc =
     (if well_formed_priority_value py v
      then parse_records py type_in value_in
             (acc @ [(py_int py (priority_part v), Some (target_part v))])
      else Inl (Uncaught ValueError))"
  by (auto simp add: split_space_1_parts well_formed_priority_value_def)

lemma parse_records_bad:
  "type_in \<in> {''PTR'', ''MX''} \<Longrightarrow> \<not> list_all (well_formed_priority_value py) value_in \<Longrightarrow>
     parse_records py type_in value_in acc = Inl (Uncaught ValueError)"
proof (induction value_in arbitrary: acc)
  case Nil
  then show ?case by simp
next
  case (Cons v value_in)
  show ?case
  proof (cases "well_formed_priority_value py v")
    case True
    with Cons.prems have "\<not> list_all (well_formed_priority_value py) value_in" by simp
    from Cons.IH [OF Cons.prems(1) this] True Cons.prems(1) show ?thesis
      by (simp only: parse_records_step if_True)
  next
    case False
    with Cons.prems(1) show ?thesis
      by (simp only: parse_records_step if_False)
  qed
qed

lemma parse_records_good:
  "type_in \<in> {''PTR'', ''MX''} \<Longrightarrow> list_all (well_formed_priority_value py) value_in \<Longrightarrow>
     parse_records py type_in value_in acc =
       Inr (acc @ map (\<lambda>v. (py_int py (priority_part v), Some (target_part v))) value_in)"
proof (induction value_in arbitrary: acc)
  case Nil
  then show ?case by simp
next
  case (Cons v value_in)
  from Cons.prems have wf: "well_formed_priority_value py v"
    and rest: "list_all (well_formed_priority_value py) value_in" by simp_all
  from Cons.IH [OF Cons.prems(1) rest] wf Cons.prems(1) show ?case
    by (simp only: parse_records_step if_True) simp
qed

text \<open>
  Claim C10. For the types MX and PTR every value is split at its first space into
  the priority and the target, and the priority is converted with \<^verbatim>\<open>int\<close>. When
  some value has no space, or the text before its first space is not an integer, the
  parsing raises \<^verbatim>\<open>ValueError\<close>, which nothing catches: the run ends with it
  before any comparison and without any call that changes the zone.
\<close>

theorem priority_values_split_at_first_space_or_raise:
  assumes "type_in \<in> {''PTR'', ''MX''}"
  shows "(list_all (well_formed_priority_value py) value_in \<longrightarrow>
            parse_records py type_in value_in [] =
              Inr (map (\<lambda>v. (py_int py (priority_part v), Some (target_part v))) value_in))
       \<and> (\<not> list_all (well_formed_priority_value py) value_in \<longrightarrow>
            parse_records py type_in value_in [] = Inl (Uncaught ValueError)
            \<and> (p_state p \<noteq> Get \<and> p_type p = type_in \<and> p_value p = value_in \<longrightarrow>
                 run_module py p zone_records = (Uncaught ValueError, [])))"
proof -
  have good: "list_all (well_formed_priority_value py) value_in \<Longrightarrow>
            parse_records py type_in value_in [] =
              Inr (map (\<lambda>v. (py_int py (priority_part v), Some (target_part v))) value_in)"
    using parse_records_good [OF assms, of py value_in "[]"] by simp
  have bad: "parse_records py type_in value_in [] = Inl (Uncaught ValueError)"
    if "\<not> list_all (well_formed_priority_value py) value_in"
    using parse_records_bad [OF assms that] .
  have run: "run_module py p zone_records = (Uncaught ValueError, [])"
    if "\<not> list_all (well_formed_priority_value py) value_in"
      and "p_state p \<noteq> Get" and "p_type p = type_in" and "p_value p = value_in"
    using bad [OF that(1)] that(2,3,4) by (simp add: run_module_def)
  from good bad run show ?thesis by blast
qed

theorem priority_values_split_at_first_space_or_raise_witness:
  "parse_records ascii_python ''MX'' [''10 mail.example.com'', ''20 backup mail''] []
     = Inr [(Some 10, Some ''mail.example.com''), (Some 20, Some ''backup mail'')]
   \<and> parse_records ascii_python ''MX'' [''10 mail.example.com'', ''mail.example.com''] []
     = Inl (Uncaught ValueError)
   \<and> parse_records ascii_python ''PTR'' [''ten host.example.com''] [] = Inl (Uncaught ValueError)"
proof -
  have w: "well_formed_priority_value ascii_python ''10 mail.example.com''"
    "well_formed_priority_value ascii_python ''20 backup mail''"
    "\<not> well_formed_priority_value ascii_python ''mail.example.com''"
    "\<not> well_formed_priority_value ascii_python ''ten host.example.com''"
    by (simp_all add: well_formed_priority_value_def priority_part_def ascii_python_def
        ascii_int_def digits_ok_def is_digit_def)
  have v: "py_int ascii_python (priority_part ''10 mail.example.com'') = Some 10"
    "py_int ascii_python (priority_part ''20 backup mail'') = Some 20"
    by (simp_all add: priority_part_def ascii_python_def ascii_int_def digits_ok_def is_digit_def
        digits_value_def digit_val_def)
  have t: "target_part ''10 mail.example.com'' = ''mail.example.com''"
    "target_part ''20 backup mail'' = ''backup mail''"
    by (simp_all add: target_part_def)
  show ?thesis
    using priority_values_split_at_first_space_or_raise
            [of "''MX''" ascii_python "[''10 mail.example.com'', ''20 backup mail'']"]
          priority_values_split_at_first_space_or_raise
            [of "''MX''" ascii_python "[''10 mail.example.com'', ''mail.example.com'']"]
          priority_values_split_at_first_space_or_raise
            [of "''PTR''" ascii_python "[''ten host.example.com'']"]
          w v t
    by simp
qed

section \<open>The result of get\<close>

lemma process_get_never_reports_ttls:
  "process_get record_in type_in records = Some data \<Longrightarrow> data_ttls data = None"
  by (auto simp: process_get_def split: if_splits)

lemma facts_never_reports_ttls:
  "facts_fetch_result record_in type_in records = Some data \<Longrightarrow> data_ttls data = None"
  by (auto simp: facts_fetch_result_def split: if_splits)

text \<open>
  Claim C7 does not hold on the code. For two matching records with the ttls 3600 and
  300 the result of state \<^verbatim>\<open>get\<close>, and of the facts module, has the minimum 300 as
  \<^verbatim>\<open>ttl\<close> but no entry \<^verbatim>\<open>ttls\<close>: \<^verbatim>\<open>ttls\<close> is a tuple of length one, so
  \<^verbatim>\<open>len(ttls) > 1\<close> never holds.
\<close>

theorem get_with_two_ttls_reports_minimum_only:
  "set (map rec_ttl [ex_record, ex_record3]) = {3600, 300}
   \<and> process_get ''example.com'' ''A'' [ex_record, ex_record3]
       = Some \<lparr>data_record = ''example.com'', data_type = ''A'', data_ttl = 300,
               data_value = [Some ''1.1.1.1'', Some ''3.3.3.3''], data_ttls = None\<rparr>
   \<and> facts_fetch_result ''example.com'' ''A'' [ex_record, ex_record3]
       = Some \<lparr>data_record = ''example.com'', data_type = ''A'', data_ttl = 300,
               data_value = [Some ''1.1.1.1'', Some ''3.3.3.3''], data_ttls = None\<rparr>
   \<and> run_module ascii_python \<lparr>p_state = Get, p_zone_in = ''example.com'', p_record_in = ''example.com'',
         p_prefix = None, p_type = ''A'', p_ttl = 3600, p_value = [],
         p_overwrite = None, p_check_mode = False\<rparr> [ex_record, ex_record3]
       = (ExitJsonSet False
            (Some \<lparr>data_record = ''example.com'', data_type = ''A'', data_ttl = 300,
               data_value = [Some ''1.1.1.1'', Some ''3.3.3.3''], data_ttls = None\<rparr>), [])"
  by (simp add: process_get_def facts_fetch_result_def run_module_def find_matching_records_def
      ex_record_def ex_record3_def)

section \<open>Encoding and decoding\<close>

lemma decode_int_element:
  "decode_wsdl py (int_element t s) =
     (case py_int py s of None \<Rightarrow> Inl ValueError | Some i \<Rightarrow> Inr (PInt i))"
  by (simp add: int_element_def el_get_def split_text_namespace_def
      NAMESPACE_XSI_def NAMESPACE_XSD_def)

text \<open>
  Claim C1 does not hold on the code for booleans. \<^verbatim>\<open>isinstance(True, int)\<close> holds,
  so a boolean is encoded by the branch for integers as an \<^verbatim>\<open>xsd:int\<close> with the
  text \<^verbatim>\<open>True\<close> or \<^verbatim>\<open>False\<close>, and decoding that element raises
  \<^verbatim>\<open>ValueError\<close> in \<^verbatim>\<open>int(node.text)\<close>, because \<^verbatim>\<open>int\<close> accepts
  neither of the two texts; the same happens for a list that contains a boolean.
\<close>

theorem booleans_do_not_round_trip:
  assumes "py_int py ''True'' = None" and "py_int py ''False'' = None"
  shows "encode_wsdl (new_element ''arg'') (PBool True)
     = Inr (Element (None, ''arg'')
              [(''xs'', NAMESPACE_XSD), (''xsi'', NAMESPACE_XSI)]
              [((Some NAMESPACE_XSI, ''type''), ''xs:int'')] (Some ''True'') [])
   \<and> decode_encoded py (PBool True) = Inl ValueError
   \<and> decode_encoded py (PBool False) = Inl ValueError
   \<and> decode_encoded py (PList [PInt 1, PBool True]) = Inl ValueError"
proof -
  have e1: "encode_wsdl (new_element ''arg'') (PBool True) = Inr (int_element ''arg'' ''True'')"
    unfolding int_element_def by code_simp
  have e2: "encode_wsdl (new_element ''arg'') (PBool False) = Inr (int_element ''arg'' ''False'')"
    unfolding int_element_def by code_simp
  have e3: "encode_wsdl (new_element ''arg'') (PList [PInt 1, PBool True])
      = Inr (Element (None, ''arg'')
               [(''ns0'', NAMESPACE_XML_SOAP_ENCODING), (''xsi'', NAMESPACE_XSI)]
               [((Some NAMESPACE_XSI, ''type''), ''ns0:Array'')] None
               [int_element ''item'' ''1'', int_element ''item'' ''True''])"
    unfolding int_element_def by code_simp
  have d1: "decode_encoded py (PBool True) = Inl ValueError"
    unfolding decode_encoded_def e1 using assms(1)
    by (simp add: decode_int_element del: decode_wsdl.simps)
  have d2: "decode_encoded py (PBool False) = Inl ValueError"
    unfolding decode_encoded_def e2 using assms(2)
    by (simp add: decode_int_element del: decode_wsdl.simps)
  have d3: "decode_encoded py (PList [PInt 1, PBool True]) = Inl ValueError"
    unfolding decode_encoded_def e3 using assms(1)
    by (simp add: int_element_def el_get_def split_text_namespace_def
        NAMESPACE_XSI_def NAMESPACE_XSD_def NAMESPACE_XML_SOAP_def
        NAMESPACE_XML_SOAP_ENCODING_def split: option.splits)
  from e1 d1 d2 d3 show ?thesis
    unfolding int_element_def by simp
qed

theorem booleans_do_not_round_trip_witness:
  "py_int ascii_python ''True'' = None \<and> py_int ascii_python ''False'' = None
   \<and> decode_encoded ascii_python (PBool True) = Inl ValueError
   \<and> decode_encoded ascii_python (PBool False) = Inl ValueError
   \<and> decode_encoded ascii_python (PList [PInt 1, PBool True]) = Inl ValueError"
proof -
  have h: "py_int ascii_python ''True'' = None" "py_int ascii_python ''False'' = None"
    by (simp_all add: ascii_python_def ascii_int_def digits_ok_def is_digit_def)
  from booleans_do_not_round_trip [OF h] h show ?thesis by simp
qed

section \<open>Several results under one name\<close>

lemma parse_returns_store:
  "parse_returns py result name rs = store_entries py result (map (\<lambda>res. (name, res)) rs)"
  by (induction rs arbitrary: result) (auto split: sum.splits)

lemma store_entries_append:
  "store_entries py result (xs @ ys) =
     (case store_entries py result xs of Inl x \<Rightarrow> Inl x | Inr r \<Rightarrow> store_entries py r ys)"
  by (induction xs arbitrary: result) (auto split: sum.splits)

lemma parse_children_store:
  "parse_children py api result cs = Inr result' \<Longrightarrow>
     store_entries py result (return_entries cs) = Inr result'"
proof (induction cs arbitrary: result)
  case Nil
  then show ?case by (simp add: return_entries_def)
next
  case (Cons c cs)
  from Cons.prems obtain r where
    r: "parse_returns py result (snd (el_tag c)) (el_iter (None, ''return'') c) = Inr r"
    and rest: "parse_children py api r cs = Inr result'"
    by (auto split: if_splits sum.splits)
  from Cons.IH [OF rest] have "store_entries py r (return_entries cs) = Inr result'" .
  moreover have "return_entries (c # cs) =
      map (\<lambda>res. (snd (el_tag c), res)) (el_iter (None, ''return'') c) @ return_entries cs"
    by (simp add: return_entries_def)
  ultimately show ?case
    using r by (simp add: store_entries_append parse_returns_store)
qed

lemma store_entries_last:
  "store_entries py result es = Inr result' \<Longrightarrow>
     (case filter (\<lambda>e. fst e = name) es of
        [] \<Rightarrow> result' name = result name
      | e # _ \<Rightarrow> \<exists>v. decode_wsdl py (snd (last (filter (\<lambda>e. fst e = name) es))) = Inr v
                    \<and> result' name = Some v)"
proof (induction es arbitrary: result)
  case Nil
  then show ?case by simp
next
  case (Cons e es)
  from Cons.prems obtain v where v: "decode_wsdl py (snd e) = Inr v"
    and rest: "store_entries py (result(fst e \<mapsto> v)) es = Inr result'"
    by (auto split: sum.splits)
  note IH = Cons.IH [OF rest]
  show ?case
  proof (cases "filter (\<lambda>e. fst e = name) es")
    case Nil
    with IH have "result' name = (result(fst e \<mapsto> v)) name" by simp
    with Nil v show ?thesis by auto
  next
    case (Cons x xs)
    with IH show ?thesis by auto
  qed
qed


text \<open>
  Claim C8, as amended. When \<^verbatim>\<open>_parse\<close> succeeds on a header or body in which
  several \<^verbatim>\<open>return\<close> elements belong to children with the same local name, the
  value stored under that name is the decoded value of the last of them, in document
  order: each assignment \<^verbatim>\<open>result[tag.localname] = ...\<close> replaces the one before.
  The theorem after the witness is the counterexample to the claim as stated: for two
  elements of the same name with the values 1 and 2, \<^verbatim>\<open>get_result\<close> gives 2, not
  the value 1 of the first.
\<close>

theorem parse_stores_last_return:
  assumes "parse py api result node = Inr result'"
    and "filter (\<lambda>e. fst e = name) (return_entries (el_children node)) \<noteq> []"
  shows "\<exists>v. decode_wsdl py
               (snd (last (filter (\<lambda>e. fst e = name) (return_entries (el_children node)))))
             = Inr v
           \<and> result' name = Some v"
proof -
  from assms(1) have "store_entries py result (return_entries (el_children node)) = Inr result'"
    unfolding parse_def by (rule parse_children_store)
  from store_entries_last [OF this, of name] assms(2) show ?thesis
    by (cases "filter (\<lambda>e. fst e = name) (return_entries (el_children node))") simp_all
qed

theorem parse_stores_last_return_witness:
  "\<exists>r v. parse ascii_python api_ns Map.empty body_twice = Inr r
       \<and> decode_wsdl ascii_python (return_int ''2'') = Inr v
       \<and> r ''getNumberOfZonesResponse'' = Some v"
proof -
  have "case parse ascii_python api_ns Map.empty body_twice of Inl e \<Rightarrow> False | Inr r \<Rightarrow> True"
    by code_simp
  then obtain r where r: "parse ascii_python api_ns Map.empty body_twice = Inr r"
    by (auto split: sum.splits)
  have f: "filter (\<lambda>e. fst e = ''getNumberOfZonesResponse'') (return_entries (el_children body_twice))
        = [(''getNumberOfZonesResponse'', return_int ''1''),
           (''getNumberOfZonesResponse'', return_int ''2'')]"
    by code_simp
  from parse_stores_last_return [OF r, of "''getNumberOfZonesResponse''"]
  have "\<exists>v. decode_wsdl ascii_python (return_int ''2'') = Inr v \<and> r ''getNumberOfZonesResponse'' = Some v"
    unfolding f by simp
  with r show ?thesis by blast
qed

theorem first_return_does_not_win:
  "parse_and_get_result ascii_python api_ns response_twice ''getNumberOfZonesResponse'' = Inr (PInt 2)
   \<and> decode_wsdl ascii_python (return_int ''1'') = Inr (PInt 1)"
  by code_simp

section \<open>Faults come first\<close>

lemma raise_fault_is_WSDLError:
  "raise_fault py fault =
     WSDLError (fault_origin py fault)
       (case truthy_text (el_find fault ''faultstring'') of
          Some message \<Rightarrow> FaultString message
        | None \<Rightarrow> FaultElement fault)"
  by (simp add: raise_fault_def split: option.splits)

lemma el_iter_first:
  assumes "fault \<in> set (el_iter_all root)" and "el_tag fault = t"
  obtains first_fault faults where "el_iter t root = first_fault # faults"
    and "first_fault \<in> set (el_iter_all root)" and "el_tag first_fault = t"
proof -
  from assms have "fault \<in> set (el_iter t root)"
    by (simp add: el_iter_def)
  then obtain f fs where e: "el_iter t root = f # fs"
    by (cases "el_iter t root") auto
  then have "f \<in> set (el_iter t root)" by simp
  then have "f \<in> set (el_iter_all root)" "el_tag f = t"
    by (simp_all add: el_iter_def)
  with e that show thesis by blast
qed

text \<open>
  Claim C6. When the response contains a fault element anywhere, the constructor of
  \<^verbatim>\<open>Parser\<close> raises \<^verbatim>\<open>WSDLError\<close> for the first fault element in document
  order, whatever else the document contains: no header or body is parsed, and so
  \<^verbatim>\<open>Composer.execute\<close>, \<^verbatim>\<open>HostTechAPI._execute\<close> and \<^verbatim>\<open>get_result\<close> on
  the parsed response all end with this error. The message is the fault string when the
  fault element has a non-empty one.
\<close>

theorem fault_raises_before_any_result:
  assumes "fault \<in> set (el_iter_all root)"
    and "el_tag fault = (Some main_ns, ''Fault'')"
  shows "\<exists>first_fault. first_fault \<in> set (el_iter_all root)
      \<and> el_tag first_fault = (Some main_ns, ''Fault'')
      \<and> Parser_init py api root = Inl (raise_fault py first_fault)
      \<and> execute py api code root = Inl (raise_fault py first_fault)
      \<and> api_execute py api code root result_name acceptable_types = Inl (raise_fault py first_fault)
      \<and> parse_and_get_result py api root result_name = Inl (raise_fault py first_fault)
      \<and> raise_fault py first_fault =
          WSDLError (fault_origin py first_fault)
            (case truthy_text (el_find first_fault ''faultstring'') of
               Some message \<Rightarrow> FaultString message
             | None \<Rightarrow> FaultElement first_fault)"
proof -
  from el_iter_first [OF assms]
  obtain first_fault faults where e: "el_iter (Some main_ns, ''Fault'') root = first_fault # faults"
    and m: "first_fault \<in> set (el_iter_all root)"
    and t: "el_tag first_fault = (Some main_ns, ''Fault'')"
    by blast
  from e have p: "Parser_init py api root = Inl (raise_fault py first_fault)"
    by (simp add: Parser_init_def)
  then have x: "execute py api code root = Inl (raise_fault py first_fault)"
    by (simp add: execute_def)
  then have a: "api_execute py api code root result_name acceptable_types
                  = Inl (raise_fault py first_fault)"
    by (simp add: api_execute_def)
  from p have g: "parse_and_get_result py api root result_name = Inl (raise_fault py first_fault)"
    by (simp add: parse_and_get_result_def)
  from m t p x a g raise_fault_is_WSDLError [of py first_fault] show ?thesis
    by blast
qed

theorem fault_raises_before_any_result_witness:
  "fault_element \<in> set (el_iter_all response_fault)
   \<and> Parser_init ascii_python api_ns response_fault = Inl (WSDLError ''client'' (FaultString ''zone not found''))
   \<and> api_execute ascii_python api_ns 200 response_fault ''getNumberOfZonesResponse'' TInt
       = Inl (WSDLError ''client'' (FaultString ''zone not found''))
   \<and> parse_children ascii_python api_ns Map.empty
        [Element (Some ''urn:other'', ''unexpected'') [] [] None []]
       = Inl (WSDLCodingException ''Cannot interpret item!'')"
proof -
  have m: "fault_element \<in> set (el_iter_all response_fault)"
    by code_simp
  have t: "el_tag fault_element = (Some main_ns, ''Fault'')"
    by (simp add: fault_element_def)
  have "case Parser_init ascii_python api_ns response_fault of
          Inl e \<Rightarrow> e = WSDLError ''client'' (FaultString ''zone not found'')
        | Inr p \<Rightarrow> False"
    by code_simp
  then have p: "Parser_init ascii_python api_ns response_fault
             = Inl (WSDLError ''client'' (FaultString ''zone not found''))"
    by (simp split: sum.splits)
  have c: "parse_children ascii_python api_ns Map.empty
        [Element (Some ''urn:other'', ''unexpected'') [] [] None []]
       = Inl (WSDLCodingException ''Cannot interpret item!'')"
    by (simp add: api_ns_def)
  from fault_raises_before_any_result [OF m t, of ascii_python api_ns 200 "''getNumberOfZonesResponse''" TInt]
  obtain ff where "Parser_init ascii_python api_ns response_fault = Inl (raise_fault ascii_python ff)"
    and "api_execute ascii_python api_ns 200 response_fault ''getNumberOfZonesResponse'' TInt
           = Inl (raise_fault ascii_python ff)"
    by blast
  with p have "api_execute ascii_python api_ns 200 response_fault ''getNumberOfZonesResponse'' TInt
       = Inl (WSDLError ''client'' (FaultString ''zone not found''))"
    by simp
  with m p c show ?thesis by blast
qed

end
